theory Spec2Isabelle
  imports Main "HOL-Library.Sublist" "HOL-Library.Product_Lexorder"
begin

section \<open>Instants and the reminder table\<close>

text \<open>
  An aware \<open>datetime\<close> is modelled by the instant it denotes: an integer number of
  microseconds since the Unix epoch (the resolution of Python's \<open>datetime\<close>).
  \<open>utc_iso\<close> writes an instant as ISO text in UTC and \<open>datetime.fromisoformat\<close> reads it
  back, so the TEXT columns \<open>due_utc\<close>, \<open>created_utc\<close>, \<open>completed_utc\<close> and
  \<open>last_sent_utc\<close> are represented by the instant their text encodes; a NULL column is
  \<open>None\<close>.

  SQLite compares and orders these columns as text. \<open>isoformat\<close> prints the fraction
  \<open>.ffffff\<close> only when the microsecond field is not zero, and \<open>'.' < 'Z'\<close>, so inside
  one second the text with no fraction sorts after all the others. \<open>iso_key\<close> is the
  key whose lexicographic order is that text order.
\<close>

type_synonym instant = int

definition iso_key :: "instant \<Rightarrow> int \<times> int" where
  "iso_key t = (t div 1000000, (t mod 1000000 - 1) mod 1000000)"

definition timedelta_minutes :: "int \<Rightarrow> int" where
  "timedelta_minutes n = n * 60000000"

definition timedelta_hours :: "int \<Rightarrow> int" where
  "timedelta_hours n = n * 3600000000"

text \<open>
  One row of the table \<open>reminders\<close> (\<open>db()\<close>, source lines 34-48). The column \<open>id\<close> is
  the field \<open>row_id\<close>. \<open>status\<close> and \<open>category\<close> are TEXT columns and stay strings.
\<close>

record reminder =
  row_id :: int
  chat_id :: int
  task :: string
  due_utc :: instant
  status :: string
  amount_cop :: "int option"
  category :: string
  created_utc :: "instant option"
  completed_utc :: "instant option"
  retry_count :: int
  last_sent_utc :: "instant option"

text \<open>
  The table is the list of its rows in rowid order. \<open>id\<close> is the PRIMARY KEY, so a
  well-formed table has pairwise different ids. Rows are never removed physically.
\<close>

type_synonym db = "reminder list"

definition wf_db :: "db \<Rightarrow> bool" where
  "wf_db d = distinct (map row_id d)"

definition sql_update :: "(reminder \<Rightarrow> bool) \<Rightarrow> (reminder \<Rightarrow> reminder) \<Rightarrow> db \<Rightarrow> db" where
  "sql_update P f d = map (\<lambda>r. if P r then f r else r) d"

definition get_row :: "db \<Rightarrow> int \<Rightarrow> reminder option" where
  "get_row d i = find (\<lambda>r. row_id r = i) d"

subsection \<open>update_reminder_time (source lines 117-134)\<close>

text \<open>
  Returns \<open>None\<close> and leaves the table alone when the SELECT finds no row of this chat
  with this id whose status is not \<open>deleted\<close>; otherwise runs the UPDATE and returns the
  new due value.
\<close>

definition reopen :: "instant \<Rightarrow> reminder \<Rightarrow> reminder" where
  "reopen due r = r\<lparr>due_utc := due, status := ''pending'', retry_count := 0, last_sent_utc := None\<rparr>"

definition update_reminder_time :: "int \<Rightarrow> int \<Rightarrow> instant \<Rightarrow> db \<Rightarrow> instant option \<times> db" where
  "update_reminder_time chat rid new_due d =
     (case filter (\<lambda>r. chat_id r = chat \<and> row_id r = rid \<and> status r \<noteq> ''deleted'') d of
        [] \<Rightarrow> (None, d)
      | _ # _ \<Rightarrow> (Some new_due,
                 sql_update (\<lambda>r. chat_id r = chat \<and> row_id r = rid) (reopen new_due) d))"

section \<open>Text and regular expressions\<close>

text \<open>
  A Python \<open>str\<close> is a sequence of code points. The model covers the texts whose code
  points are below 256 (Latin-1, which holds the Spanish letters the program looks
  for), one \<open>char\<close> per code point. On this range \<open>str.isspace\<close> and the pattern
  \<open>\s\<close> accept the same characters, \<open>\d\<close> accepts the ten ASCII digits, and \<open>\w\<close>
  accepts what \<open>str.isalnum\<close> accepts and the underscore.
\<close>

definition code_point :: "char \<Rightarrow> nat" where
  "code_point c = of_char c"

definition py_isspace :: "char \<Rightarrow> bool" where
  "py_isspace c = (let n = code_point c in
     (9 \<le> n \<and> n \<le> 13) \<or> (28 \<le> n \<and> n \<le> 32) \<or> n = 133 \<or> n = 160)"

definition py_isdecimal :: "char \<Rightarrow> bool" where
  "py_isdecimal c = (let n = code_point c in 48 \<le> n \<and> n \<le> 57)"

definition py_isword :: "char \<Rightarrow> bool" where
  "py_isword c = (let n = code_point c in
     (48 \<le> n \<and> n \<le> 57) \<or> (65 \<le> n \<and> n \<le> 90) \<or> n = 95 \<or> (97 \<le> n \<and> n \<le> 122) \<or>
     n = 170 \<or> n = 178 \<or> n = 179 \<or> n = 181 \<or> n = 185 \<or> n = 186 \<or>
     (188 \<le> n \<and> n \<le> 190) \<or> (192 \<le> n \<and> n \<le> 214) \<or> (216 \<le> n \<and> n \<le> 246) \<or>
     (248 \<le> n \<and> n \<le> 255))"

definition lower_char :: "char \<Rightarrow> char" where
  "lower_char c = (let n = code_point c in
     if (65 \<le> n \<and> n \<le> 90) \<or> (192 \<le> n \<and> n \<le> 222 \<and> n \<noteq> 215)
     then char_of (n + 32) else c)"

definition lower :: "string \<Rightarrow> string" where
  "lower s = map lower_char s"

definition strip_by :: "(char \<Rightarrow> bool) \<Rightarrow> string \<Rightarrow> string" where
  "strip_by sp s = rev (dropWhile sp (rev (dropWhile sp s)))"

definition strip :: "string \<Rightarrow> string" where
  "strip s = strip_by py_isspace s"

text \<open>\<open>w in t\<close> on strings is \<^const>\<open>sublist\<close>; \<open>any(w in t for w in ws)\<close>:\<close>

definition any_in :: "string list \<Rightarrow> string \<Rightarrow> bool" where
  "any_in ws t = list_ex (\<lambda>w. sublist w t) ws"

text \<open>
  \<open>int(s)\<close> on a string of ASCII digits, and \<open>str(n)\<close>. (The interpreter's limit on the
  number of digits of a decimal literal is not modelled.)
\<close>

definition dec_value :: "string \<Rightarrow> int" where
  "dec_value s = foldl (\<lambda>a c. 10 * a + (int (code_point c) - 48)) 0 s"

function digits_of :: "nat \<Rightarrow> string" where
  "digits_of n =
     (if n < 10 then [char_of (48 + n)] else digits_of (n div 10) @ [char_of (48 + n mod 10)])"
  by pat_completeness auto
termination
  by (relation "measure (\<lambda>n. n)") auto

declare digits_of.simps [simp del]

definition str_int :: "int \<Rightarrow> string" where
  "str_int i = (if i < 0 then CHR ''-'' # digits_of (nat (- i)) else digits_of (nat i))"

subsection \<open>The patterns of module re\<close>

text \<open>
  The constructs the program's patterns use: a character class, sequence, alternative
  (\<open>a|b\<close>, the left one first), the greedy star, the word boundary \<open>\b\<close> and the anchor
  \<open>^\<close>. A position in the subject is the character before it (none at the start) and
  the rest of the subject. \<open>rmatch r x\<close> lists the positions where a match of \<open>r\<close> that
  starts at \<open>x\<close> can end, in the order in which the backtracking matcher of \<open>re\<close> finds
  them: the head of the list is the match that \<open>re\<close> reports.
\<close>

datatype re = Eps | Cls "char \<Rightarrow> bool" | Seq re re | Alt re re | Star re | Bnd | Bol

type_synonym pos = "char option \<times> string"

definition at_boundary :: "pos \<Rightarrow> bool" where
  "at_boundary x =
     ((case fst x of None \<Rightarrow> False | Some c \<Rightarrow> py_isword c) \<noteq>
      (case snd x of [] \<Rightarrow> False | c # _ \<Rightarrow> py_isword c))"

function rmatch :: "re \<Rightarrow> pos \<Rightarrow> pos list" where
  "rmatch Eps x = [x]"
| "rmatch (Cls P) x = (case snd x of [] \<Rightarrow> [] | c # cs \<Rightarrow> if P c then [(Some c, cs)] else [])"
| "rmatch (Seq a b) x = concat (map (rmatch b) (rmatch a x))"
| "rmatch (Alt a b) x = rmatch a x @ rmatch b x"
| "rmatch (Star a) x =
     concat (map (\<lambda>y. if length (snd y) < length (snd x) then rmatch (Star a) y else [])
                 (rmatch a x)) @ [x]"
| "rmatch Bnd x = (if at_boundary x then [x] else [])"
| "rmatch Bol x = (if fst x = None then [x] else [])"
  by pat_completeness auto
termination
  by (relation "inv_image (less_than <*lex*> less_than) (\<lambda>(r, x). (size r, length (snd x)))")
     auto

declare rmatch.simps(5) [simp del]

text \<open>\<open>re.match(r, s)\<close> as a truth value: is there a match starting at position 0?\<close>

definition re_match :: "re \<Rightarrow> string \<Rightarrow> bool" where
  "re_match r s = (rmatch r (None, s) \<noteq> [])"

text \<open>\<open>re.search(r, s)\<close>: the text of the leftmost match, \<open>None\<close> when there is none.\<close>

fun re_search_from :: "re \<Rightarrow> char option \<Rightarrow> string \<Rightarrow> string option" where
  "re_search_from r p [] = (case rmatch r (p, []) of [] \<Rightarrow> None | y # _ \<Rightarrow> Some [])"
| "re_search_from r p (c # cs) =
     (case rmatch r (p, c # cs) of
        [] \<Rightarrow> re_search_from r (Some c) cs
      | y # _ \<Rightarrow> Some (take (length (c # cs) - length (snd y)) (c # cs)))"

definition re_search :: "re \<Rightarrow> string \<Rightarrow> string option" where
  "re_search r s = re_search_from r None s"

text \<open>
  The scan behind \<open>re.findall\<close> and \<open>re.sub\<close>: the subject cut into the successive
  non-overlapping matches (tagged \<open>True\<close>) and the single characters between them
  (tagged \<open>False\<close>). After an empty match the next match at the same position must
  be non-empty (\<open>adv\<close>).
\<close>

function re_scan :: "re \<Rightarrow> bool \<Rightarrow> char option \<Rightarrow> string \<Rightarrow> (bool \<times> string) list" where
  "re_scan r adv p s =
     (case filter (\<lambda>y. \<not> adv \<or> length (snd y) < length s) (rmatch r (p, s)) of
        y # _ \<Rightarrow>
          (let n = length s - length (snd y) in
           (True, take n s) #
           (if n = 0 then (if adv then [] else re_scan r True p s)
            else re_scan r False (fst y) (drop n s)))
      | [] \<Rightarrow> (case s of [] \<Rightarrow> [] | c # cs \<Rightarrow> (False, [c]) # re_scan r False (Some c) cs))"
  by pat_completeness auto
termination
  by (relation "measure (\<lambda>(r, adv, p, s). 2 * length s + (if adv then 0 else 1))") auto

declare re_scan.simps [simp del]

definition re_findall :: "re \<Rightarrow> string \<Rightarrow> string list" where
  "re_findall r s = map snd (filter fst (re_scan r False None s))"

definition re_sub :: "re \<Rightarrow> (string \<Rightarrow> string) \<Rightarrow> string \<Rightarrow> string" where
  "re_sub r f s = concat (map (\<lambda>(m, t). if m then f t else t) (re_scan r False None s))"

text \<open>Pattern syntax: \<open>c\<close>, \<open>\d\<close>, \<open>\s\<close>, \<open>r?\<close>, \<open>r+\<close>, a literal word, \<open>r{1,2}\<close>, \<open>r{1,3}\<close>.\<close>

definition re_chr :: "char \<Rightarrow> re" where
  "re_chr c = Cls (\<lambda>x. x = c)"

definition re_digit :: re where
  "re_digit = Cls py_isdecimal"

definition re_space :: re where
  "re_space = Cls py_isspace"

definition re_opt :: "re \<Rightarrow> re" where
  "re_opt r = Alt r Eps"

definition re_plus :: "re \<Rightarrow> re" where
  "re_plus r = Seq r (Star r)"

definition re_lit :: "string \<Rightarrow> re" where
  "re_lit s = foldr (\<lambda>c r. Seq (re_chr c) r) s Eps"

definition rep_1_2 :: "re \<Rightarrow> re" where
  "rep_1_2 r = Seq r (re_opt r)"

definition rep_1_3 :: "re \<Rightarrow> re" where
  "rep_1_3 r = Seq r (re_opt (Seq r (re_opt r)))"

section \<open>Time and money extraction\<close>

subsection \<open>text_has_time_hints (source lines 252-260)\<close>

text \<open>The pattern \<open>\b\d{1,2}\s*(am|pm)\b\<close>.\<close>

definition ampm_re :: re where
  "ampm_re = Seq Bnd (Seq (rep_1_2 re_digit) (Seq (Star re_space)
               (Seq (Alt (re_lit ''am'') (re_lit ''pm'')) Bnd)))"

definition text_has_time_hints :: "string \<Rightarrow> bool" where
  "text_has_time_hints text =
     (let tlow = lower text in
      if CHR '':'' \<in> set tlow then True
      else if re_search ampm_re tlow \<noteq> None then True
      else if sublist ''a las'' tlow then True
      else False)"

subsection \<open>strip_money_candidates (source lines 263-277)\<close>

text \<open>
  The pattern \<open>\$?\s*\d{1,3}(?:[.,]\d{3})+|\$?\s*\d{4,}\<close> and the replacement
  function \<open>repl\<close>; \<open>re.sub(r"[^\d]", "", token)\<close> keeps the digits of the token.
\<close>

definition grouped_re :: re where
  "grouped_re = Seq (re_opt (re_chr (CHR ''$''))) (Seq (Star re_space) (Seq (rep_1_3 re_digit)
     (re_plus (Seq (Cls (\<lambda>c. c = CHR ''.'' \<or> c = CHR '','')) (Seq re_digit (Seq re_digit re_digit))))))"

definition money_strip_re :: re where
  "money_strip_re =
     Alt grouped_re
         (Seq (re_opt (re_chr (CHR ''$''))) (Seq (Star re_space)
            (Seq re_digit (Seq re_digit (Seq re_digit (Seq re_digit (Star re_digit)))))))"

definition repl :: "string \<Rightarrow> string" where
  "repl token =
     (if CHR '':'' \<in> set token then token
      else if length (filter py_isdecimal token) \<ge> 4 then '' ''
      else token)"

definition strip_money_candidates :: "string \<Rightarrow> string" where
  "strip_money_candidates text = re_sub money_strip_re repl text"

subsection \<open>parse_amount_cop_strict (source lines 280-310)\<close>

text \<open>
  The pattern \<open>\$?\s*\d{1,3}(?:[.,]\d{3})+|\$?\s*\d+\<close>. The loop keeps in \<open>best\<close> the
  largest value seen so far; \<open>amount_step\<close> is one round of it.
\<close>

definition money_find_re :: re where
  "money_find_re =
     Alt grouped_re (Seq (re_opt (re_chr (CHR ''$''))) (Seq (Star re_space) (re_plus re_digit)))"

definition money_context :: "string \<Rightarrow> bool" where
  "money_context tlow = any_in [''pagar'', ''pago'', ''pesos'', ''cop'', [CHR ''$''], ''debo''] tlow"

definition amount_step :: "int option \<Rightarrow> string \<Rightarrow> int option" where
  "amount_step best c =
     (if CHR '':'' \<in> set c then best
      else let digits = filter py_isdecimal c in
        if length digits < 4 then best
        else let val = dec_value digits in
          if val \<le> 0 then best
          else (case best of None \<Rightarrow> Some val
                | Some b \<Rightarrow> if val > b then Some val else best))"

definition parse_amount_cop_strict :: "string \<Rightarrow> int option" where
  "parse_amount_cop_strict text =
     (let tlow = lower text in
      if \<not> money_context tlow then None
      else foldl amount_step None (re_findall money_find_re text))"

subsection \<open>parse_date_time_from_text (source lines 313-341)\<close>

text \<open>
  The pattern \<open>\b(\d{1,2})(:\d{2})?\b\<close>, and the words that count as mentioning a day.
  \<open>dateparser.parse\<close> is a library outside the repository: it enters as the parameter
  \<open>dateparse\<close>, from the text handed to it and the instant RELATIVE_BASE to an
  instant or \<open>None\<close> (its other settings are constants).
\<close>

definition bare_number_re :: re where
  "bare_number_re = Seq Bnd (Seq (rep_1_2 re_digit)
                      (Seq (re_opt (Seq (re_chr (CHR '':'')) (Seq re_digit re_digit))) Bnd))"

definition day_words :: "string list" where
  "day_words =
     [''hoy'', ''ma'' @ [CHR 0xF1] @ ''ana'', ''manana'',
      ''lunes'', ''martes'', ''mi'' @ [CHR 0xE9] @ ''rcoles'', ''miercoles'', ''jueves'',
      ''viernes'', ''s'' @ [CHR 0xE1] @ ''bado'', ''sabado'', ''domingo'',
      ''pr'' @ [CHR 0xF3] @ ''ximo'', ''proximo'',
      ''enero'', ''febrero'', ''marzo'', ''abril'', ''mayo'', ''junio'', ''julio'', ''agosto'',
      ''septiembre'', ''setiembre'', ''octubre'', ''noviembre'', ''diciembre'',
      ''en '', ''dentro'', ''esta tarde'', ''esta noche'']"

definition has_time :: "string \<Rightarrow> bool" where
  "has_time cleaned =
     (text_has_time_hints cleaned \<or> re_search bare_number_re (lower cleaned) \<noteq> None)"

definition mentions_day :: "string \<Rightarrow> bool" where
  "mentions_day cleaned = any_in day_words (lower cleaned)"

definition augmented :: "string \<Rightarrow> string \<Rightarrow> string" where
  "augmented default_hour text =
     (let cleaned = strip_money_candidates text in
      if mentions_day cleaned \<and> \<not> has_time cleaned then cleaned @ '' '' @ default_hour
      else cleaned)"

definition parse_date_time_from_text ::
  "(string \<Rightarrow> instant \<Rightarrow> instant option) \<Rightarrow> string \<Rightarrow> instant \<Rightarrow> string \<Rightarrow> instant option" where
  "parse_date_time_from_text dateparse default_hour now text =
     dateparse (augmented default_hour text) now"

text \<open>
  The candidates that count, in words: no colon, at least four digits once the
  separators are dropped, and a value above zero; and their values.
\<close>

definition eligible :: "string \<Rightarrow> bool" where
  "eligible c =
     (CHR '':'' \<notin> set c \<and> 4 \<le> length (filter py_isdecimal c) \<and>
      0 < dec_value (filter py_isdecimal c))"

definition eligible_values :: "string \<Rightarrow> int list" where
  "eligible_values text =
     map (\<lambda>c. dec_value (filter py_isdecimal c))
         (filter eligible (re_findall money_find_re text))"

section \<open>Quincena\<close>

text \<open>
  \<open>datetime(year, month, day, hour, minute, tzinfo=LOCAL_TZ)\<close> is modelled by its
  local calendar fields. The constructor raises ValueError on fields out of range;
  \<open>calendar.monthrange\<close> raises on a month outside 1..12.
\<close>

datatype error = ValueError | TypeError

record local_dt =
  year :: int
  month :: int
  day :: int
  hour :: int
  minute :: int

definition isleap :: "int \<Rightarrow> bool" where
  "isleap y = (y mod 4 = 0 \<and> (y mod 100 \<noteq> 0 \<or> y mod 400 = 0))"

definition mdays :: "int \<Rightarrow> int" where
  "mdays m = (if m = 2 then 28 else if m \<in> {4, 6, 9, 11} then 30 else 31)"

definition monthrange_last :: "int \<Rightarrow> int \<Rightarrow> error + int" where
  "monthrange_last y m =
     (if \<not> (1 \<le> m \<and> m \<le> 12) then Inl ValueError
      else Inr (mdays m + (if m = 2 \<and> isleap y then 1 else 0)))"

definition mk_datetime :: "int \<Rightarrow> int \<Rightarrow> int \<Rightarrow> int \<Rightarrow> int \<Rightarrow> error + local_dt" where
  "mk_datetime y m d h mi =
     (if 1 \<le> y \<and> y \<le> 9999 \<and> 1 \<le> m \<and> m \<le> 12 \<and>
         1 \<le> d \<and> d \<le> mdays m + (if m = 2 \<and> isleap y then 1 else 0) \<and>
         0 \<le> h \<and> h \<le> 23 \<and> 0 \<le> mi \<and> mi \<le> 59
      then Inr \<lparr>year = y, month = m, day = d, hour = h, minute = mi\<rparr>
      else Inl ValueError)"

subsection \<open>quincena_range (source lines 400-408)\<close>

definition quincena_range :: "int \<Rightarrow> int \<Rightarrow> int \<Rightarrow> error + (local_dt \<times> local_dt)" where
  "quincena_range y m which =
     (if which = 1 then
        (case mk_datetime y m 1 0 0 of Inl e \<Rightarrow> Inl e | Inr start \<Rightarrow>
         case mk_datetime y m 15 23 59 of Inl e \<Rightarrow> Inl e | Inr stop \<Rightarrow> Inr (start, stop))
      else
        (case monthrange_last y m of Inl e \<Rightarrow> Inl e | Inr last_day \<Rightarrow>
         case mk_datetime y m 16 0 0 of Inl e \<Rightarrow> Inl e | Inr start \<Rightarrow>
         case mk_datetime y m last_day 23 59 of Inl e \<Rightarrow> Inl e | Inr stop \<Rightarrow> Inr (start, stop)))"

subsection \<open>current_quincena_range (source lines 411-416)\<close>

text \<open>\<open>today\<close> stands for \<open>now_local()\<close>, read once.\<close>

definition current_quincena_range :: "local_dt \<Rightarrow> error + (local_dt \<times> local_dt \<times> string)" where
  "current_quincena_range today =
     (let which = (if day today \<le> 15 then 1 else 2 :: int) in
      case quincena_range (year today) (month today) which of
        Inl e \<Rightarrow> Inl e
      | Inr (start, stop) \<Rightarrow>
          Inr (start, stop,
               if which = 1 then ''esta primera quincena'' else ''esta segunda quincena''))"

subsection \<open>parse_quincena_query (source lines 419-453)\<close>

definition MONTHS_ES :: "(string \<times> int) list" where
  "MONTHS_ES =
     [(''enero'', 1), (''febrero'', 2), (''marzo'', 3), (''abril'', 4), (''mayo'', 5),
      (''junio'', 6), (''julio'', 7), (''agosto'', 8), (''septiembre'', 9),
      (''setiembre'', 9), (''octubre'', 10), (''noviembre'', 11), (''diciembre'', 12)]"

text \<open>The patterns \<open>\b{mname}\b\<close> and \<open>\b(20\d{2})\b\<close>.\<close>

definition month_re :: "string \<Rightarrow> re" where
  "month_re mname = Seq Bnd (Seq (re_lit mname) Bnd)"

definition year_re :: re where
  "year_re = Seq Bnd (Seq (re_lit ''20'') (Seq re_digit (Seq re_digit Bnd)))"

definition find_month :: "string \<Rightarrow> (string \<times> int) option" where
  "find_month tlow = find (\<lambda>(mname, mnum). re_search (month_re mname) tlow \<noteq> None) MONTHS_ES"

definition parse_quincena_query ::
  "local_dt \<Rightarrow> string \<Rightarrow> error + (local_dt \<times> local_dt \<times> string) option" where
  "parse_quincena_query today text =
     (let tlow = lower text in
      if sublist ''esta quincena'' tlow then
        (case current_quincena_range today of Inl e \<Rightarrow> Inl e | Inr q \<Rightarrow> Inr (Some q))
      else
        let which = (if sublist ''primera quincena'' tlow then Some 1
                     else if sublist ''segunda quincena'' tlow then Some 2
                     else None :: int option)
        in case find_month tlow of
             None \<Rightarrow> Inr None
           | Some (month_name, mnum) \<Rightarrow>
               let y = (case re_search year_re tlow of
                          Some ym \<Rightarrow> dec_value ym
                        | None \<Rightarrow> year today);
                   which = (case which of
                              Some w \<Rightarrow> w
                            | None \<Rightarrow>
                                if mnum = month today \<and> y = year today
                                then (if day today \<le> 15 then 1 else 2)
                                else 1)
               in case quincena_range y mnum which of
                    Inl e \<Rightarrow> Inl e
                  | Inr (start, stop) \<Rightarrow>
                      Inr (Some (start, stop,
                        (if which = 1 then ''primera'' else ''segunda'') @ '' quincena de '' @
                        month_name @ '' '' @ str_int y)))"

section \<open>The other operations on the table\<close>

text \<open>
  \<open>ORDER BY due_utc ASC\<close> sorts by the text of the column, that is by \<^const>\<open>iso_key\<close>;
  rows with equal keys keep their rowid order. A SELECT returns the rows themselves
  (the source projects them to the columns it lists). A negative LIMIT is no limit.
\<close>

definition order_by_due :: "reminder list \<Rightarrow> reminder list" where
  "order_by_due rs = sort_key (\<lambda>r. iso_key (due_utc r)) rs"

definition sql_limit :: "int \<Rightarrow> reminder list \<Rightarrow> reminder list" where
  "sql_limit n rs = (if n < 0 then rs else take (nat n) rs)"

subsection \<open>insert_reminder (source lines 102-114)\<close>

text \<open>
  AUTOINCREMENT gives the new row the largest id ever used plus one; no row is ever
  removed, so that is the largest id in the table plus one (1 in an empty table).
\<close>

definition next_id :: "db \<Rightarrow> int" where
  "next_id d = foldr max (map row_id d) 0 + 1"

definition insert_reminder ::
  "instant \<Rightarrow> int \<Rightarrow> string \<Rightarrow> instant \<Rightarrow> int option \<Rightarrow> string \<Rightarrow> db \<Rightarrow> (int \<times> instant) \<times> db" where
  "insert_reminder now chat tsk due amount cat d =
     (let new_id = next_id d in
      ((new_id, due),
       d @ [\<lparr>row_id = new_id, chat_id = chat, task = tsk, due_utc = due,
              status = ''pending'', amount_cop = amount, category = cat,
              created_utc = Some now, completed_utc = None, retry_count = 0,
              last_sent_utc = None\<rparr>]))"

subsection \<open>fetch_reminders (source lines 137-153)\<close>

text \<open>\<open>if status:\<close> holds for a status that is neither \<open>None\<close> nor the empty string.\<close>

definition fetch_reminders :: "int \<Rightarrow> string option \<Rightarrow> int \<Rightarrow> db \<Rightarrow> reminder list" where
  "fetch_reminders chat st limit d =
     (if st \<noteq> None \<and> st \<noteq> Some []
      then sql_limit limit (order_by_due
             (filter (\<lambda>r. chat_id r = chat \<and> status r = the st) d))
      else sql_limit limit (order_by_due
             (filter (\<lambda>r. chat_id r = chat \<and> status r \<noteq> ''deleted'') d)))"

subsection \<open>fetch_range (source lines 156-176)\<close>

text \<open>
  \<open>start_utc\<close> and \<open>end_utc\<close> are the bounds after \<open>utc_iso\<close>; the comparisons
  \<open>due_utc >= ?\<close> and \<open>due_utc <= ?\<close> are comparisons of text.
\<close>

definition fetch_range :: "int \<Rightarrow> instant \<Rightarrow> instant \<Rightarrow> string option \<Rightarrow> db \<Rightarrow> reminder list" where
  "fetch_range chat start_utc end_utc cat d =
     (if cat \<noteq> None \<and> cat \<noteq> Some []
      then order_by_due
             (filter (\<lambda>r. chat_id r = chat \<and> status r \<noteq> ''deleted'' \<and> category r = the cat \<and>
                           iso_key (due_utc r) \<ge> iso_key start_utc \<and>
                           iso_key (due_utc r) \<le> iso_key end_utc) d)
      else order_by_due
             (filter (\<lambda>r. chat_id r = chat \<and> status r \<noteq> ''deleted'' \<and>
                           iso_key (due_utc r) \<ge> iso_key start_utc \<and>
                           iso_key (due_utc r) \<le> iso_key end_utc) d))"

subsection \<open>mark_done (source lines 179-208)\<close>

definition mark_done :: "instant \<Rightarrow> int \<Rightarrow> int option \<Rightarrow> db \<Rightarrow> (int \<times> string) option \<times> db" where
  "mark_done now chat rid d =
     (case (case rid of
              None \<Rightarrow> order_by_due (filter (\<lambda>r. chat_id r = chat \<and> status r = ''pending'') d)
            | Some i \<Rightarrow> filter (\<lambda>r. chat_id r = chat \<and> row_id r = i \<and> status r = ''pending'') d)
      of [] \<Rightarrow> (None, d)
       | row # _ \<Rightarrow>
           (Some (row_id row, task row),
            sql_update (\<lambda>r. chat_id r = chat \<and> row_id r = row_id row)
              (\<lambda>r. r\<lparr>status := ''done'', completed_utc := Some now\<rparr>) d))"

subsection \<open>delete_reminder (source lines 211-224)\<close>

definition delete_reminder :: "int \<Rightarrow> int \<Rightarrow> db \<Rightarrow> (int \<times> string) option \<times> db" where
  "delete_reminder chat rid d =
     (case filter (\<lambda>r. chat_id r = chat \<and> row_id r = rid \<and> status r \<noteq> ''deleted'') d of
        [] \<Rightarrow> (None, d)
      | row # _ \<Rightarrow>
          (Some (row_id row, task row),
           sql_update (\<lambda>r. chat_id r = chat \<and> row_id r = rid) (\<lambda>r. r\<lparr>status := ''deleted''\<rparr>) d))"

section \<open>Formatting\<close>

text \<open>
  A reply is modelled by what it reports, not by its rendered text: which template
  the source fills in and with which values.
\<close>

datatype title = Pendientes | Lista_completa | Lista_en string

datatype reply =
    Eliminados "int list" "int list"
  | No_pude_borrar
  | Comandos
  | Lista title "reminder list"
  | No_hay_recordatorios
  | Pagos_en string "reminder list" int
  | No_veo_pagos string
  | No_entendi_fecha
  | No_encontre
  | Reprogramado int instant
  | Guardado int instant string "int option"
  | No_veo_pendientes
  | Hecho int string
  | Para_cuando string "int option"
  | Te_leo
  | Ya_no_pendiente
  | Marcado_hecho int string
  | Cuando_otra_vez
  | Reprogramado_1h int instant

subsection \<open>format_list (source lines 457-467), format_pay_sum (source lines 470-483)\<close>

definition format_list :: "reminder list \<Rightarrow> title \<Rightarrow> reply" where
  "format_list rs ttl = (if rs = [] then No_hay_recordatorios else Lista ttl rs)"

definition pays_of :: "reminder list \<Rightarrow> reminder list" where
  "pays_of rs = filter (\<lambda>r. amount_cop r \<noteq> None \<or> category r = ''pago'') rs"

definition pay_total :: "reminder list \<Rightarrow> int" where
  "pay_total pays = sum_list (map (\<lambda>r. case amount_cop r of None \<Rightarrow> 0 | Some a \<Rightarrow> a) pays)"

definition format_pay_sum :: "reminder list \<Rightarrow> string \<Rightarrow> reply" where
  "format_pay_sum rs label =
     (let pays = pays_of rs in
      if pays = [] then No_veo_pagos label
      else Pagos_en label pays (pay_total pays))"

section \<open>Natural language features\<close>

subsection \<open>looks_like_confirm (source lines 228-231, 247-249)\<close>

definition CONFIRM_WORDS :: "string list" where
  "CONFIRM_WORDS =
     [''ya'', ''listo'', ''hecho'', ''ok'', ''okey'', ''confirmo'', ''pagado'',
      ''realizado'', ''ya lo hice'', ''ya lo pagu'' @ [CHR 0xE9], ''ya lo pague'']"

definition looks_like_confirm :: "string \<Rightarrow> bool" where
  "looks_like_confirm text =
     (let t = lower (strip text) in list_ex (\<lambda>w. t = w \<or> sublist w t) CONFIRM_WORDS)"

subsection \<open>parse_delete_request (source lines 487-506)\<close>

text \<open>
  The patterns \<open>^(borrar|borra|eliminar|elimina)\b\<close> and \<open>#?(\d+)\<close>. \<open>re.findall\<close>
  returns group 1 of each match, which is the match without its \<open>#\<close>. \<open>dedup\<close> is
  the loop that keeps the first occurrence of each id.
\<close>

definition delete_re :: re where
  "delete_re = Seq Bol (Seq (Alt (re_lit ''borrar'') (Alt (re_lit ''borra'')
                  (Alt (re_lit ''eliminar'') (re_lit ''elimina'')))) Bnd)"

definition ids_re :: re where
  "ids_re = Seq (re_opt (re_chr (CHR ''#''))) (re_plus re_digit)"

fun dedup :: "int list \<Rightarrow> int list \<Rightarrow> int list \<Rightarrow> int list" where
  "dedup seen out [] = out"
| "dedup seen out (x # xs) =
     (if x \<notin> set seen then dedup (x # seen) (out @ [x]) xs else dedup seen out xs)"

definition parse_delete_request :: "string \<Rightarrow> int list option" where
  "parse_delete_request text =
     (let tlow = lower (strip text) in
      if \<not> re_match delete_re tlow then None
      else let nums = map (filter py_isdecimal) (re_findall ids_re tlow) in
        if nums = [] then None
        else let out = dedup [] [] (map dec_value nums) in
          if out \<noteq> [] then Some out else None)"

subsection \<open>The fixed phrases (source lines 509-526)\<close>

definition is_pending_list_request :: "string \<Rightarrow> bool" where
  "is_pending_list_request text =
     (lower (strip text) \<in> {''lista'', ''generar lista'', ''generar la lista'', ''genera lista'',
                             ''genera la lista''})"

definition is_full_list_request :: "string \<Rightarrow> bool" where
  "is_full_list_request text =
     (lower (strip text) \<in> {''genera toda la lista'', ''generar toda la lista'',
                             ''toda la lista'', ''lista completa''})"

definition is_quincena_list_request :: "string \<Rightarrow> bool" where
  "is_quincena_list_request text =
     (lower (strip text) \<in> {''genera toda la de la quincena'', ''generar toda la de la quincena'',
                             ''lista de la quincena'', ''toda la quincena''})"

definition is_commands_request :: "string \<Rightarrow> bool" where
  "is_commands_request text =
     (lower (strip text) \<in> {''generar lista de comandos'', ''genera comando'', ''comandos'',
                             ''comandos disponibles'', ''ayuda''})"

section \<open>Interactive state (source lines 530-551)\<close>

text \<open>
  \<open>context.user_data\<close> is a dict in which the program uses two keys, each present or
  absent on its own: the payload of a reminder waiting for its date, and the payload
  \<open>{"rid": rid}\<close> of a reschedule waiting for its date.
\<close>

record new_payload =
  pl_task :: string
  pl_amount_cop :: "int option"
  pl_category :: string

record user_data =
  awaiting_datetime_for_new :: "new_payload option"
  awaiting_datetime_for_reschedule :: "int option"

definition set_awaiting_datetime_for_new :: "user_data \<Rightarrow> new_payload \<Rightarrow> user_data" where
  "set_awaiting_datetime_for_new ctx payload = ctx\<lparr>awaiting_datetime_for_new := Some payload\<rparr>"

definition pop_awaiting_datetime_for_new :: "user_data \<Rightarrow> new_payload option \<times> user_data" where
  "pop_awaiting_datetime_for_new ctx =
     (awaiting_datetime_for_new ctx, ctx\<lparr>awaiting_datetime_for_new := None\<rparr>)"

definition is_awaiting_datetime_for_new :: "user_data \<Rightarrow> bool" where
  "is_awaiting_datetime_for_new ctx = (awaiting_datetime_for_new ctx \<noteq> None)"

definition set_awaiting_datetime_for_reschedule :: "user_data \<Rightarrow> int \<Rightarrow> user_data" where
  "set_awaiting_datetime_for_reschedule ctx rid = ctx\<lparr>awaiting_datetime_for_reschedule := Some rid\<rparr>"

definition pop_awaiting_datetime_for_reschedule :: "user_data \<Rightarrow> int option \<times> user_data" where
  "pop_awaiting_datetime_for_reschedule ctx =
     (awaiting_datetime_for_reschedule ctx, ctx\<lparr>awaiting_datetime_for_reschedule := None\<rparr>)"

definition is_awaiting_datetime_for_reschedule :: "user_data \<Rightarrow> bool" where
  "is_awaiting_datetime_for_reschedule ctx = (awaiting_datetime_for_reschedule ctx \<noteq> None)"

section \<open>The handlers\<close>

text \<open>
  What a handler reads from outside the table and the chat state: the configuration,
  the clock, the time zone, the library \<open>dateparser\<close>, and \<open>parse_create_intent\<close>
  (source lines 344-396), whose result decides only what happens after the steps
  modelled here and which enters as a function of the text.

  The clock is read once per handler. \<open>now_local()\<close> is an aware datetime in the
  configured zone: \<open>now_local\<close> is the instant it denotes (also the value of
  \<open>utc_now()\<close>), \<open>today\<close> its local calendar fields, and \<open>wall_now\<close> its local
  wall-clock reading as one number, the microseconds from 1970-01-01 00:00 counted on
  the local calendar. Adding a \<open>timedelta\<close> to an aware datetime adds on the wall
  clock and keeps the zone. The zone turns a local time into the instant that
  \<open>utc_iso\<close> stores: \<open>localize\<close> from calendar fields, \<open>utc_of_wall\<close> from a
  wall-clock reading.
\<close>

record parsed_create =
  pc_task :: string
  pc_due_local :: "instant option"
  pc_amount_cop :: "int option"
  pc_category :: string

record env =
  DEFAULT_HOUR :: string
  now_local :: instant
  today :: local_dt
  wall_now :: int
  localize :: "local_dt \<Rightarrow> instant"
  utc_of_wall :: "int \<Rightarrow> instant"
  dateparse :: "string \<Rightarrow> instant \<Rightarrow> instant option"
  parse_create_intent :: "string \<Rightarrow> parsed_create option"

subsection \<open>reminder_keyboard (source lines 555-565)\<close>


subsection \<open>on_callback (source lines 605-644)\<close>

text \<open>
  \<open>int(s)\<close> on any string of the model's range: surrounding whitespace, an optional
  sign, digits with single underscores between them; ValueError otherwise. The
  whitespace that \<open>int\<close> skips is that of C (tab to carriage return, and the blank)
  and the two spaces above ASCII (133 and 160), not the separators 28 to 31 that
  \<open>str.isspace\<close> accepts. \<open>data.split(":")[1]\<close> is the text between the first colon
  and the next one.
\<close>

fun digits_ok :: "string \<Rightarrow> bool" where
  "digits_ok [] = False"
| "digits_ok [c] = py_isdecimal c"
| "digits_ok (c # d # cs) =
     (py_isdecimal c \<and> (if d = CHR ''_'' then cs \<noteq> [] \<and> digits_ok cs else digits_ok (d # cs)))"

definition int_isspace :: "char \<Rightarrow> bool" where
  "int_isspace c = (let n = code_point c in (9 \<le> n \<and> n \<le> 13) \<or> n = 32 \<or> n = 133 \<or> n = 160)"

definition py_int :: "string \<Rightarrow> error + int" where
  "py_int s =
     (let t = strip_by int_isspace s;
          neg = (t \<noteq> [] \<and> hd t = CHR ''-'');
          body = (if t \<noteq> [] \<and> (hd t = CHR ''-'' \<or> hd t = CHR ''+'') then tl t else t)
      in if digits_ok body
         then Inr ((if neg then - 1 else 1) * dec_value (filter py_isdecimal body))
         else Inl ValueError)"

definition field1 :: "string \<Rightarrow> string" where
  "field1 data = takeWhile (\<lambda>c. c \<noteq> CHR '':'') (drop 1 (dropWhile (\<lambda>c. c \<noteq> CHR '':'') data))"

definition on_callback ::
  "env \<Rightarrow> int \<Rightarrow> string \<Rightarrow> user_data \<Rightarrow> db \<Rightarrow> error + (reply option \<times> user_data \<times> db)" where
  "on_callback e chat data ctx d =
     (if prefix ''done:'' data then
        (case py_int (field1 data) of Inl err \<Rightarrow> Inl err | Inr rid \<Rightarrow>
           (case mark_done (now_local e) chat (Some rid) d of
              (None, d') \<Rightarrow> Inr (Some Ya_no_pendiente, ctx, d')
            | (Some (rid2, tsk), d') \<Rightarrow> Inr (Some (Marcado_hecho rid2 tsk), ctx, d')))
      else if prefix ''resched:'' data then
        (case py_int (field1 data) of Inl err \<Rightarrow> Inl err | Inr rid \<Rightarrow>
           Inr (Some Cuando_otra_vez, set_awaiting_datetime_for_reschedule ctx rid, d))
      else if prefix ''snooze1h:'' data then
        (case py_int (field1 data) of Inl err \<Rightarrow> Inl err | Inr rid \<Rightarrow>
           (case update_reminder_time chat rid
                   (utc_of_wall e (wall_now e + timedelta_hours 1)) d of
              (None, d') \<Rightarrow> Inr (Some No_encontre, ctx, d')
            | (Some due, d') \<Rightarrow> Inr (Some (Reprogramado_1h rid due), ctx, d')))
      else Inr (None, ctx, d))"

subsection \<open>on_text (source lines 648-818)\<close>

text \<open>Step 0 (lines 653-672): the loop over the ids of a delete request.\<close>

fun delete_loop :: "int \<Rightarrow> int list \<Rightarrow> int list \<times> int list \<times> db \<Rightarrow> int list \<times> int list \<times> db" where
  "delete_loop chat [] acc = acc"
| "delete_loop chat (rid # ids) (deleted, not_found, d) =
     (case delete_reminder chat rid d of
        (Some res, d') \<Rightarrow> delete_loop chat ids (deleted @ [rid], not_found, d')
      | (None, d') \<Rightarrow> delete_loop chat ids (deleted, not_found @ [rid], d'))"

definition delete_step :: "int \<Rightarrow> int list \<Rightarrow> user_data \<Rightarrow> db \<Rightarrow> reply \<times> user_data \<times> db" where
  "delete_step chat ids ctx d =
     (case delete_loop chat ids ([], [], d) of
        (deleted, not_found, d') \<Rightarrow>
          (if deleted = [] \<and> not_found = [] then No_pude_borrar else Eliminados deleted not_found,
           ctx, d'))"

text \<open>
  Step 1 (lines 713-732): the chat is waiting for the date of a reschedule. Indexing
  the popped payload raises TypeError when the key was absent; \<open>on_text\<close> runs the step
  only when it is present.
\<close>

definition reschedule_step ::
  "env \<Rightarrow> int \<Rightarrow> string \<Rightarrow> user_data \<Rightarrow> db \<Rightarrow> error + (reply \<times> user_data \<times> db)" where
  "reschedule_step e chat text ctx d =
     (case pop_awaiting_datetime_for_reschedule ctx of
        (None, ctx') \<Rightarrow> Inl TypeError
      | (Some rid, ctx') \<Rightarrow>
          (case parse_date_time_from_text (dateparse e) (DEFAULT_HOUR e) (now_local e) text of
             None \<Rightarrow> Inr (No_entendi_fecha, set_awaiting_datetime_for_reschedule ctx' rid, d)
           | Some dt \<Rightarrow>
               (case update_reminder_time chat rid dt d of
                  (None, d') \<Rightarrow> Inr (No_encontre, ctx', d')
                | (Some due, d') \<Rightarrow> Inr (Reprogramado rid due, ctx', d'))))"

text \<open>Step 2 (lines 734-757): the chat is waiting for the date of a new reminder.\<close>

definition new_step ::
  "env \<Rightarrow> int \<Rightarrow> string \<Rightarrow> user_data \<Rightarrow> db \<Rightarrow> error + (reply \<times> user_data \<times> db)" where
  "new_step e chat text ctx d =
     (case pop_awaiting_datetime_for_new ctx of
        (None, ctx') \<Rightarrow> Inl TypeError
      | (Some payload, ctx') \<Rightarrow>
          (case parse_date_time_from_text (dateparse e) (DEFAULT_HOUR e) (now_local e) text of
             None \<Rightarrow> Inr (No_entendi_fecha, set_awaiting_datetime_for_new ctx' payload, d)
           | Some dt \<Rightarrow>
               (case insert_reminder (now_local e) chat (pl_task payload) dt
                       (pl_amount_cop payload) (pl_category payload) d of
                  ((rid, due), d') \<Rightarrow>
                    Inr (Guardado rid due (pl_task payload)
                           (if pl_amount_cop payload \<noteq> None \<and> pl_amount_cop payload \<noteq> Some 0
                            then pl_amount_cop payload else None),
                         ctx', d'))))"

text \<open>Steps 3 to 5 and the fallback (lines 759-818).\<close>

definition sum_words :: "string list" where
  "sum_words = [''suma'', ''sumame'', ''sumar'', ''cuanto debo'',
                ''cu'' @ [CHR 0xE1] @ ''nto debo'', ''cuanto tengo'', ''total'']"

definition intent_steps ::
  "env \<Rightarrow> int \<Rightarrow> string \<Rightarrow> user_data \<Rightarrow> db \<Rightarrow> error + (reply \<times> user_data \<times> db)" where
  "intent_steps e chat text ctx d =
     (if looks_like_confirm text then
        (case mark_done (now_local e) chat None d of
           (None, d') \<Rightarrow> Inr (No_veo_pendientes, ctx, d')
         | (Some (rid, tsk), d') \<Rightarrow> Inr (Hecho rid tsk, ctx, d'))
      else if sublist ''quincena'' (lower text) \<and> any_in sum_words (lower text) then
        (case (case parse_quincena_query (today e) text of
                 Inl err \<Rightarrow> Inl err
               | Inr None \<Rightarrow> current_quincena_range (today e)
               | Inr (Some q) \<Rightarrow> Inr q) of
           Inl err \<Rightarrow> Inl err
         | Inr (start, stop, label) \<Rightarrow>
             Inr (format_pay_sum
                    (fetch_range chat (localize e start) (localize e stop) None d) label,
                  ctx, d))
      else
        (case parse_create_intent e text of
           Some parsed \<Rightarrow>
             (case pc_due_local parsed of
                None \<Rightarrow>
                  Inr (Para_cuando (pc_task parsed)
                         (if pc_amount_cop parsed \<noteq> None \<and> pc_amount_cop parsed \<noteq> Some 0
                          then pc_amount_cop parsed else None),
                       set_awaiting_datetime_for_new ctx
                         \<lparr>pl_task = pc_task parsed, pl_amount_cop = pc_amount_cop parsed,
                          pl_category = pc_category parsed\<rparr>,
                       d)
              | Some due \<Rightarrow>
                  (case insert_reminder (now_local e) chat (pc_task parsed) due
                          (pc_amount_cop parsed) (pc_category parsed) d of
                     ((rid, due_utc'), d') \<Rightarrow>
                       Inr (Guardado rid due_utc' (pc_task parsed)
                              (if pc_amount_cop parsed \<noteq> None \<and> pc_amount_cop parsed \<noteq> Some 0
                               then pc_amount_cop parsed else None),
                            ctx, d')))
         | None \<Rightarrow> Inr (Te_leo, ctx, d)))"

text \<open>
  The handler: \<open>text\<close> is the message text, stripped; the steps run in the order of
  the source and the first one that applies returns.
\<close>

definition on_text ::
  "env \<Rightarrow> int \<Rightarrow> string \<Rightarrow> user_data \<Rightarrow> db \<Rightarrow> error + (reply \<times> user_data \<times> db)" where
  "on_text e chat message ctx d =
     (let text = strip message in
      case parse_delete_request text of
        Some ids \<Rightarrow> Inr (delete_step chat ids ctx d)
      | None \<Rightarrow>
          if is_commands_request text then Inr (Comandos, ctx, d)
          else if is_pending_list_request text then
            Inr (format_list (fetch_reminders chat (Some ''pending'') 200 d) Pendientes, ctx, d)
          else if is_full_list_request text then
            Inr (format_list (fetch_reminders chat None 200 d) Lista_completa, ctx, d)
          else if is_quincena_list_request text then
            (case current_quincena_range (today e) of
               Inl err \<Rightarrow> Inl err
             | Inr (start, stop, label) \<Rightarrow>
                 Inr (format_list
                        (fetch_range chat (localize e start) (localize e stop) None d)
                        (Lista_en label),
                      ctx, d))
          else if is_awaiting_datetime_for_reschedule ctx then
            reschedule_step e chat text ctx d
          else if is_awaiting_datetime_for_new ctx then
            new_step e chat text ctx d
          else intent_steps e chat text ctx d)"

text \<open>
  The steps of \<open>on_text\<close> that come before the two continuation steps, as one test on
  the stripped text: a delete request with ids (step 0) or one of the fixed phrases
  (steps 0.1 to 0.4).
\<close>

definition early_step :: "string \<Rightarrow> bool" where
  "early_step text =
     (parse_delete_request text \<noteq> None \<or> is_commands_request text \<or>
      is_pending_list_request text \<or> is_full_list_request text \<or>
      is_quincena_list_request text)"

section \<open>Scheduler\<close>

subsection \<open>tick_job (source lines 822-864)\<close>

text \<open>
  The tick reads the pending rows once and then handles them one by one against the
  table. \<open>send c i t\<close> tells whether \<open>send_message\<close> for reminder \<open>i\<close> of chat \<open>c\<close>
  returns (\<open>True\<close>) or raises; the \<open>except Exception: pass\<close> around it turns a raise
  into nothing. The second component of the state is the list of the delivery
  attempts made, each with its outcome. The cooldown test
  \<open>(now - last).total_seconds() / 60.0 < RETRY_EVERY_MINUTES\<close> is taken in exact
  arithmetic on microseconds.
\<close>

record config =
  RETRY_EVERY_MINUTES :: int
  MAX_RETRIES :: int

type_synonym attempts = "(int \<times> bool) list"

definition tick_row ::
  "config \<Rightarrow> instant \<Rightarrow> (int \<Rightarrow> int \<Rightarrow> string \<Rightarrow> bool) \<Rightarrow> reminder \<Rightarrow> db \<times> attempts \<Rightarrow> db \<times> attempts" where
  "tick_row cfg now send row st =
     (case st of (conn, log) \<Rightarrow>
      if now < due_utc row then (conn, log)
      else if retry_count row \<ge> MAX_RETRIES cfg then
        (sql_update (\<lambda>r. row_id r = row_id row)
           (\<lambda>r. r\<lparr>status := ''done'', completed_utc := Some now\<rparr>) conn, log)
      else if (case last_sent_utc row of
                 None \<Rightarrow> False
               | Some sent \<Rightarrow> now - sent < timedelta_minutes (RETRY_EVERY_MINUTES cfg))
      then (conn, log)
      else if send (chat_id row) (row_id row) (task row) then
        (sql_update (\<lambda>r. row_id r = row_id row)
           (\<lambda>r. r\<lparr>retry_count := retry_count r + 1, last_sent_utc := Some now\<rparr>) conn,
         log @ [(row_id row, True)])
      else (conn, log @ [(row_id row, False)]))"

definition tick_job ::
  "config \<Rightarrow> instant \<Rightarrow> (int \<Rightarrow> int \<Rightarrow> string \<Rightarrow> bool) \<Rightarrow> db \<Rightarrow> db \<times> attempts" where
  "tick_job cfg now send d =
     fold (tick_row cfg now send) (filter (\<lambda>r. status r = ''pending'') d) (d, [])"

subsection \<open>The tick, row by row\<close>

text \<open>
  What one tick does to a single row, read off the loop body: \<open>exhausted\<close> rows are
  closed, \<open>attempted\<close> rows get a delivery attempt, the others are skipped.
  \<open>row_after\<close> is the row after the tick and \<open>attempts_of\<close> the attempts made.
  These are compared with \<open>tick_job\<close> below.
\<close>

definition cooling :: "config \<Rightarrow> instant \<Rightarrow> reminder \<Rightarrow> bool" where
  "cooling cfg now r =
     (case last_sent_utc r of
        None \<Rightarrow> False
      | Some sent \<Rightarrow> now - sent < timedelta_minutes (RETRY_EVERY_MINUTES cfg))"

definition exhausted :: "config \<Rightarrow> instant \<Rightarrow> reminder \<Rightarrow> bool" where
  "exhausted cfg now r =
     (status r = ''pending'' \<and> due_utc r \<le> now \<and> retry_count r \<ge> MAX_RETRIES cfg)"

definition attempted :: "config \<Rightarrow> instant \<Rightarrow> reminder \<Rightarrow> bool" where
  "attempted cfg now r =
     (status r = ''pending'' \<and> due_utc r \<le> now \<and> retry_count r < MAX_RETRIES cfg \<and>
      \<not> cooling cfg now r)"

definition row_after ::
  "config \<Rightarrow> instant \<Rightarrow> (int \<Rightarrow> int \<Rightarrow> string \<Rightarrow> bool) \<Rightarrow> reminder \<Rightarrow> reminder" where
  "row_after cfg now send r =
     (if exhausted cfg now r then r\<lparr>status := ''done'', completed_utc := Some now\<rparr>
      else if attempted cfg now r \<and> send (chat_id r) (row_id r) (task r)
      then r\<lparr>retry_count := retry_count r + 1, last_sent_utc := Some now\<rparr>
      else r)"

definition attempts_of ::
  "config \<Rightarrow> instant \<Rightarrow> (int \<Rightarrow> int \<Rightarrow> string \<Rightarrow> bool) \<Rightarrow> reminder list \<Rightarrow> attempts" where
  "attempts_of cfg now send rs =
     map (\<lambda>r. (row_id r, send (chat_id r) (row_id r) (task r))) (filter (attempted cfg now) rs)"

text \<open>
  \<open>run_repeating(tick_job, interval=30, first=5)\<close> (source line 889) runs the tick
  again and again, while the handlers work on the same table in between. The table
  is written by five functions of the source and by nothing else: \<open>tick_job\<close>,
  \<open>insert_reminder\<close>, \<open>update_reminder_time\<close> (reschedule and snooze), \<open>mark_done\<close>
  and \<open>delete_reminder\<close>. A history is a list of calls of these, each tick with its
  own clock reading and its own transport behaviour; \<open>run_events\<close> runs a history and
  collects the delivery attempts of its ticks.
\<close>

datatype event =
    Tick instant "int \<Rightarrow> int \<Rightarrow> string \<Rightarrow> bool"
  | Insert instant int string instant "int option" string
  | Reschedule int int instant
  | Mark_done instant int "int option"
  | Delete int int

fun apply_event :: "config \<Rightarrow> event \<Rightarrow> db \<Rightarrow> db \<times> attempts" where
  "apply_event cfg (Tick now send) d = tick_job cfg now send d"
| "apply_event cfg (Insert now chat tsk due amount cat) d =
     (snd (insert_reminder now chat tsk due amount cat d), [])"
| "apply_event cfg (Reschedule chat rid due) d = (snd (update_reminder_time chat rid due d), [])"
| "apply_event cfg (Mark_done now chat rid) d = (snd (mark_done now chat rid d), [])"
| "apply_event cfg (Delete chat rid) d = (snd (delete_reminder chat rid d), [])"

fun run_events :: "config \<Rightarrow> event list \<Rightarrow> db \<Rightarrow> db \<times> attempts" where
  "run_events cfg [] d = (d, [])"
| "run_events cfg (ev # evs) d =
     (case apply_event cfg ev d of
        (d1, log1) \<Rightarrow> (case run_events cfg evs d1 of (d2, log2) \<Rightarrow> (d2, log1 @ log2)))"

text \<open>A reminder that was confirmed after three notifications, used in examples.\<close>

definition example_done :: reminder where
  "example_done =
     \<lparr>row_id = 1, chat_id = 7, task = ''pagar luz'', due_utc = 100000000, status = ''done'',
      amount_cop = None, category = ''pago'', created_utc = Some 0,
      completed_utc = Some 150000000, retry_count = 3, last_sent_utc = Some 120000000\<rparr>"

definition example_deleted :: reminder where
  "example_deleted =
     \<lparr>row_id = 2, chat_id = 7, task = ''pagar agua'', due_utc = 200000000, status = ''deleted'',
      amount_cop = Some 50000, category = ''pago'', created_utc = Some 0,
      completed_utc = None, retry_count = 0, last_sent_utc = None\<rparr>"

text \<open>A pending reminder that was notified 24 times, a configuration and a clock.\<close>

definition example_exhausted :: reminder where
  "example_exhausted =
     \<lparr>row_id = 1, chat_id = 7, task = ''pagar luz'', due_utc = 100000000, status = ''pending'',
      amount_cop = None, category = ''pago'', created_utc = Some 0,
      completed_utc = None, retry_count = 24, last_sent_utc = Some 120000000\<rparr>"

definition example_cfg :: config where
  "example_cfg = \<lparr>RETRY_EVERY_MINUTES = 60, MAX_RETRIES = 24\<rparr>"

definition example_env :: "instant \<Rightarrow> env" where
  "example_env now =
     \<lparr>DEFAULT_HOUR = ''09:00'', now_local = now,
      today = \<lparr>year = 2026, month = 11, day = 4, hour = 10, minute = 0\<rparr>,
      wall_now = now - 18000000000,
      localize = (\<lambda>t. 0), utc_of_wall = (\<lambda>w. w + 18000000000),
      dateparse = (\<lambda>s t. None), parse_create_intent = (\<lambda>s. None)\<rparr>"


text \<open>
  A history after the closing tick: a second reminder is created, the first is
  confirmed by button (which finds it no longer pending), the second is rescheduled,
  the first is deleted, and a tick notifies the second.
\<close>

definition example_history :: "event list" where
  "example_history =
     [Insert 250000000 7 ''botar basura'' 260000000 None ''general'',
      Mark_done 270000000 7 (Some 1),
      Reschedule 7 2 280000000,
      Delete 7 1,
      Tick 300000000 (\<lambda>c i t. True)]"

definition example_idle :: user_data where
  "example_idle = \<lparr>awaiting_datetime_for_new = None, awaiting_datetime_for_reschedule = None\<rparr>"

text \<open>Two pending reminders that are due, and a transport that fails for the first.\<close>

definition example_due :: "int \<Rightarrow> reminder" where
  "example_due i =
     \<lparr>row_id = i, chat_id = 7, task = ''botar basura'', due_utc = 100000000, status = ''pending'',
      amount_cop = None, category = ''general'', created_utc = Some 0,
      completed_utc = None, retry_count = 2, last_sent_utc = None\<rparr>"

definition fails_for :: "int \<Rightarrow> int \<Rightarrow> int \<Rightarrow> string \<Rightarrow> bool" where
  "fails_for i c j t = (j \<noteq> i)"

text \<open>A chat waiting for the date of a new reminder, and one waiting to reschedule #1.\<close>

definition example_awaiting_new :: user_data where
  "example_awaiting_new =
     \<lparr>awaiting_datetime_for_new =
        Some \<lparr>pl_task = ''pagar luz'', pl_amount_cop = None, pl_category = ''pago''\<rparr>,
      awaiting_datetime_for_reschedule = None\<rparr>"

definition example_awaiting_reschedule :: user_data where
  "example_awaiting_reschedule =
     \<lparr>awaiting_datetime_for_new = None, awaiting_datetime_for_reschedule = Some 1\<rparr>"

definition example_today :: local_dt where
  "example_today = \<lparr>year = 2026, month = 11, day = 4, hour = 10, minute = 0\<rparr>"

text \<open>The word for tomorrow, with its n-tilde (code point 241).\<close>

definition manana :: string where
  "manana = ''ma'' @ [CHR 0xF1] @ ''ana''"

section \<open>Facts about the table\<close>

lemma get_row_Some_mem: "get_row d i = Some r \<Longrightarrow> r \<in> set d \<and> row_id r = i"
  unfolding get_row_def by (induction d) (auto split: if_splits)

lemma get_row_None_iff: "get_row d i = None \<longleftrightarrow> (\<forall>r\<in>set d. row_id r \<noteq> i)"
  unfolding get_row_def by (induction d) auto

lemma get_row_unique:
  "wf_db d \<Longrightarrow> r \<in> set d \<Longrightarrow> get_row d (row_id r) = Some r"
  unfolding get_row_def wf_db_def by (induction d) (auto simp: rev_image_eqI)

lemma get_row_sql_update:
  assumes "\<And>r. row_id (f r) = row_id r"
  shows "get_row (sql_update P f d) i =
           map_option (\<lambda>r. if P r then f r else r) (get_row d i)"
  unfolding get_row_def sql_update_def using assms by (induction d) auto

lemma ids_sql_update:
  assumes "\<And>r. row_id (f r) = row_id r"
  shows "map row_id (sql_update P f d) = map row_id d"
  unfolding sql_update_def using assms by (induction d) auto

lemma sql_update_none: "(\<And>r. r \<in> set d \<Longrightarrow> \<not> P r) \<Longrightarrow> sql_update P f d = d"
  unfolding sql_update_def by (induction d) auto

lemma row_id_reopen [simp]: "row_id (reopen t r) = row_id r"
  by (simp add: reopen_def)

lemma update_reminder_time_found:
  assumes "get_row d rid = Some r" "chat_id r = chat" "status r \<noteq> ''deleted''"
  shows "update_reminder_time chat rid t d =
           (Some t, sql_update (\<lambda>r. chat_id r = chat \<and> row_id r = rid) (reopen t) d)"
proof -
  from assms have "r \<in> set (filter (\<lambda>r. chat_id r = chat \<and> row_id r = rid \<and> status r \<noteq> ''deleted'') d)"
    using get_row_Some_mem by fastforce
  then have "filter (\<lambda>r. chat_id r = chat \<and> row_id r = rid \<and> status r \<noteq> ''deleted'') d \<noteq> []"
    by (metis empty_iff list.set(1))
  then show ?thesis
    unfolding update_reminder_time_def by (simp split: list.splits)
qed

lemma update_reminder_time_missing:
  assumes "wf_db d"
    and "\<forall>r. get_row d rid = Some r \<longrightarrow> status r = ''deleted'' \<or> chat_id r \<noteq> chat"
  shows "update_reminder_time chat rid t d = (None, d)"
proof -
  have "filter (\<lambda>r. chat_id r = chat \<and> row_id r = rid \<and> status r \<noteq> ''deleted'') d = []"
  proof (rule ccontr)
    assume "filter (\<lambda>r. chat_id r = chat \<and> row_id r = rid \<and> status r \<noteq> ''deleted'') d \<noteq> []"
    then obtain r where r: "r \<in> set d" "chat_id r = chat" "row_id r = rid" "status r \<noteq> ''deleted''"
      by (auto simp: filter_empty_conv)
    with assms(1) have "get_row d rid = Some r" using get_row_unique by blast
    with assms(2) r show False by blast
  qed
  then show ?thesis unfolding update_reminder_time_def by simp
qed

section \<open>Rescheduling\<close>

text \<open>
  C4. For a reminder of the chat that is not deleted (status pending, done or anything
  else), \<open>update_reminder_time\<close> returns the new due value and leaves the row with the
  new due instant, status \<open>pending\<close>, \<open>retry_count = 0\<close> and \<open>last_sent_utc\<close> NULL, every
  other row as it was. For an id that is absent, deleted or of another chat it returns
  not-found (\<open>None\<close>) and the table is unchanged.
\<close>

theorem update_reminder_time_reopens:
  assumes "wf_db d"
  shows "(\<forall>r. get_row d rid = Some r \<and> chat_id r = chat \<and> status r \<noteq> ''deleted'' \<longrightarrow>
            fst (update_reminder_time chat rid t d) = Some t \<and>
            get_row (snd (update_reminder_time chat rid t d)) rid =
              Some (r\<lparr>due_utc := t, status := ''pending'', retry_count := 0,
                       last_sent_utc := None\<rparr>) \<and>
            (\<forall>j. j \<noteq> rid \<longrightarrow>
               get_row (snd (update_reminder_time chat rid t d)) j = get_row d j) \<and>
            map row_id (snd (update_reminder_time chat rid t d)) = map row_id d)
       \<and> ((\<forall>r. get_row d rid = Some r \<longrightarrow> status r = ''deleted'' \<or> chat_id r \<noteq> chat) \<longrightarrow>
            update_reminder_time chat rid t d = (None, d))"
proof (intro conjI allI impI)
  fix r
  assume a: "get_row d rid = Some r \<and> chat_id r = chat \<and> status r \<noteq> ''deleted''"
  then have u: "update_reminder_time chat rid t d =
      (Some t, sql_update (\<lambda>r. chat_id r = chat \<and> row_id r = rid) (reopen t) d)"
    using update_reminder_time_found by blast
  show "fst (update_reminder_time chat rid t d) = Some t" by (simp add: u)
  show "get_row (snd (update_reminder_time chat rid t d)) rid =
      Some (r\<lparr>due_utc := t, status := ''pending'', retry_count := 0, last_sent_utc := None\<rparr>)"
    using a get_row_Some_mem [of d rid r]
    by (simp add: u get_row_sql_update reopen_def)
  show "map row_id (snd (update_reminder_time chat rid t d)) = map row_id d"
    by (simp add: u ids_sql_update)
  fix j
  assume "j \<noteq> rid"
  then show "get_row (snd (update_reminder_time chat rid t d)) j = get_row d j"
    using get_row_Some_mem [of d j]
    by (cases "get_row d j") (auto simp: u get_row_sql_update)
next
  assume "\<forall>r. get_row d rid = Some r \<longrightarrow> status r = ''deleted'' \<or> chat_id r \<noteq> chat"
  with assms show "update_reminder_time chat rid t d = (None, d)"
    using update_reminder_time_missing by blast
qed

theorem update_reminder_time_reopens_witness:
  "wf_db [example_done] \<and> get_row [example_done] 1 = Some example_done \<and>
   status example_done = ''done'' \<and>
   update_reminder_time 7 1 500 [example_done] =
     (Some 500, [example_done\<lparr>due_utc := 500, status := ''pending'', retry_count := 0,
                              last_sent_utc := None\<rparr>]) \<and>
   get_row (snd (update_reminder_time 7 1 500 [example_done])) 1 =
     Some (example_done\<lparr>due_utc := 500, status := ''pending'', retry_count := 0,
                         last_sent_utc := None\<rparr>) \<and>
   update_reminder_time 8 1 500 [example_done] = (None, [example_done])"
  using update_reminder_time_reopens [of "[example_done]" 1 7 500]
    update_reminder_time_reopens [of "[example_done]" 1 8 500]
  by (simp add: wf_db_def get_row_def example_done_def update_reminder_time_def
      sql_update_def reopen_def)

section \<open>Listings and sums\<close>

lemma set_order_by_due [simp]: "set (order_by_due rs) = set rs"
  by (simp add: order_by_due_def)

lemma set_sql_limit: "set (sql_limit n rs) \<subseteq> set rs"
  by (auto simp: sql_limit_def dest: in_set_takeD)

lemma filter_not_deleted_absorb:
  assumes "\<And>r. P r \<Longrightarrow> status r \<noteq> ''deleted''"
  shows "filter P (filter (\<lambda>r. status r \<noteq> ''deleted'') d) = filter P d"
  using assms by (induction d) auto

lemma fetch_range_ignores_deleted:
  "fetch_range chat a b cat (filter (\<lambda>r. status r \<noteq> ''deleted'') d) = fetch_range chat a b cat d"
proof -
  have 1: "filter (\<lambda>r. chat_id r = chat \<and> status r \<noteq> ''deleted'' \<and> category r = the cat \<and>
                      iso_key (due_utc r) \<ge> iso_key a \<and> iso_key (due_utc r) \<le> iso_key b)
             (filter (\<lambda>r. status r \<noteq> ''deleted'') d) =
           filter (\<lambda>r. chat_id r = chat \<and> status r \<noteq> ''deleted'' \<and> category r = the cat \<and>
                      iso_key (due_utc r) \<ge> iso_key a \<and> iso_key (due_utc r) \<le> iso_key b) d"
    by (rule filter_not_deleted_absorb) simp
  have 2: "filter (\<lambda>r. chat_id r = chat \<and> status r \<noteq> ''deleted'' \<and>
                      iso_key (due_utc r) \<ge> iso_key a \<and> iso_key (due_utc r) \<le> iso_key b)
             (filter (\<lambda>r. status r \<noteq> ''deleted'') d) =
           filter (\<lambda>r. chat_id r = chat \<and> status r \<noteq> ''deleted'' \<and>
                      iso_key (due_utc r) \<ge> iso_key a \<and> iso_key (due_utc r) \<le> iso_key b) d"
    by (rule filter_not_deleted_absorb) simp
  show ?thesis unfolding fetch_range_def 1 2 ..
qed

lemma fetch_reminders_ignores_deleted:
  assumes "st \<noteq> Some ''deleted''"
  shows "fetch_reminders chat st limit (filter (\<lambda>r. status r \<noteq> ''deleted'') d) =
         fetch_reminders chat st limit d"
proof -
  have 1: "filter (\<lambda>r. chat_id r = chat \<and> status r \<noteq> ''deleted'')
             (filter (\<lambda>r. status r \<noteq> ''deleted'') d) =
           filter (\<lambda>r. chat_id r = chat \<and> status r \<noteq> ''deleted'') d"
    by (rule filter_not_deleted_absorb) simp
  show ?thesis
  proof (cases "st \<noteq> None \<and> st \<noteq> Some []")
    case True
    then obtain s where s: "st = Some s" by auto
    with assms have "s \<noteq> ''deleted''" by simp
    then have "filter (\<lambda>r. chat_id r = chat \<and> status r = the st)
                 (filter (\<lambda>r. status r \<noteq> ''deleted'') d)
        = filter (\<lambda>r. chat_id r = chat \<and> status r = the st) d"
      using s by (intro filter_not_deleted_absorb) auto
    with True show ?thesis by (simp add: fetch_reminders_def del: filter_filter)
  next
    case False
    then show ?thesis using 1 by (auto simp add: fetch_reminders_def simp del: filter_filter)
  qed
qed

lemma fetch_range_not_deleted: "r \<in> set (fetch_range chat a b cat d) \<Longrightarrow> status r \<noteq> ''deleted''"
  unfolding fetch_range_def by (auto split: if_splits)

lemma fetch_reminders_not_deleted:
  assumes "st \<noteq> Some ''deleted''" "r \<in> set (fetch_reminders chat st limit d)"
  shows "status r \<noteq> ''deleted''"
proof (cases "st \<noteq> None \<and> st \<noteq> Some []")
  case True
  then obtain s where s: "st = Some s" by auto
  from assms(2) True
  have "r \<in> set (sql_limit limit (order_by_due (filter (\<lambda>r. chat_id r = chat \<and> status r = the st) d)))"
    by (simp add: fetch_reminders_def)
  then have "r \<in> set (order_by_due (filter (\<lambda>r. chat_id r = chat \<and> status r = the st) d))"
    using set_sql_limit by blast
  then have "status r = s" using s by simp
  with assms(1) s show ?thesis by simp
next
  case False
  with assms(2)
  have "r \<in> set (sql_limit limit (order_by_due (filter (\<lambda>r. chat_id r = chat \<and> status r \<noteq> ''deleted'') d)))"
    by (auto simp: fetch_reminders_def)
  then have "r \<in> set (order_by_due (filter (\<lambda>r. chat_id r = chat \<and> status r \<noteq> ''deleted'') d))"
    using set_sql_limit by blast
  then show ?thesis by simp
qed

text \<open>
  C8, as the code has it. A deleted reminder is in no result of \<open>fetch_reminders\<close>
  unless the status asked for is \<open>deleted\<close> itself, in no result of \<open>fetch_range\<close>
  for any range and category, and among no payments summed from such a result;
  removing the deleted rows from the table changes none of these results, nor the
  sum reported by \<open>format_pay_sum\<close>.
\<close>

theorem deleted_excluded_from_listings:
  "(st \<noteq> Some ''deleted'' \<longrightarrow>
      (\<forall>r \<in> set (fetch_reminders chat st limit d). status r \<noteq> ''deleted'') \<and>
      fetch_reminders chat st limit (filter (\<lambda>r. status r \<noteq> ''deleted'') d) =
        fetch_reminders chat st limit d) \<and>
   (\<forall>r \<in> set (fetch_range chat a b cat d). status r \<noteq> ''deleted'') \<and>
   (\<forall>r \<in> set (pays_of (fetch_range chat a b cat d)). status r \<noteq> ''deleted'') \<and>
   fetch_range chat a b cat (filter (\<lambda>r. status r \<noteq> ''deleted'') d) = fetch_range chat a b cat d \<and>
   format_pay_sum (fetch_range chat a b cat (filter (\<lambda>r. status r \<noteq> ''deleted'') d)) label =
     format_pay_sum (fetch_range chat a b cat d) label"
  using fetch_reminders_not_deleted fetch_reminders_ignores_deleted
    fetch_range_not_deleted fetch_range_ignores_deleted
  by (auto simp: pays_of_def)

theorem deleted_excluded_from_listings_witness:
  "status example_deleted = ''deleted'' \<and>
   iso_key 0 \<le> iso_key (due_utc example_deleted) \<and>
   iso_key (due_utc example_deleted) \<le> iso_key 1000000000 \<and>
   fetch_reminders 7 None 200 [example_deleted, example_done] = [example_done] \<and>
   fetch_reminders 7 (Some ''done'') 200 [example_deleted, example_done] = [example_done] \<and>
   fetch_range 7 0 1000000000 None [example_deleted, example_done] = [example_done] \<and>
   format_pay_sum (fetch_range 7 0 1000000000 None [example_deleted, example_done]) ''q'' =
     Pagos_en ''q'' [example_done] 0"
proof -
  have e: "status example_deleted = ''deleted'' \<and>
      iso_key 0 \<le> iso_key (due_utc example_deleted) \<and>
      iso_key (due_utc example_deleted) \<le> iso_key 1000000000 \<and>
      fetch_reminders 7 None 200 (filter (\<lambda>r. status r \<noteq> ''deleted'') [example_deleted, example_done])
        = [example_done] \<and>
      fetch_reminders 7 (Some ''done'') 200
        (filter (\<lambda>r. status r \<noteq> ''deleted'') [example_deleted, example_done]) = [example_done] \<and>
      fetch_range 7 0 1000000000 None
        (filter (\<lambda>r. status r \<noteq> ''deleted'') [example_deleted, example_done]) = [example_done] \<and>
      format_pay_sum [example_done] ''q'' = Pagos_en ''q'' [example_done] 0"
    by code_simp
  have a: "None \<noteq> Some ''deleted''" "Some ''done'' \<noteq> Some ''deleted''" by simp_all
  note t1 = deleted_excluded_from_listings
      [of None 7 200 "[example_deleted, example_done]" 0 1000000000 None "''q''"]
  note t2 = deleted_excluded_from_listings
      [of "Some ''done''" 7 200 "[example_deleted, example_done]" 0 1000000000 None "''q''"]
  from t1 a(1) have 1: "fetch_reminders 7 None 200 [example_deleted, example_done] =
      fetch_reminders 7 None 200 (filter (\<lambda>r. status r \<noteq> ''deleted'') [example_deleted, example_done])"
    by metis
  from t2 a(2) have 2: "fetch_reminders 7 (Some ''done'') 200 [example_deleted, example_done] =
      fetch_reminders 7 (Some ''done'') 200
        (filter (\<lambda>r. status r \<noteq> ''deleted'') [example_deleted, example_done])"
    by metis
  from t1 have 3: "fetch_range 7 0 1000000000 None [example_deleted, example_done] =
      fetch_range 7 0 1000000000 None
        (filter (\<lambda>r. status r \<noteq> ''deleted'') [example_deleted, example_done])"
    by metis
  show ?thesis unfolding 1 2 3 using e by metis
qed

text \<open>
  The claim as stated fails for the status argument \<open>deleted\<close>: the list operation
  then returns exactly the deleted reminders.
\<close>

theorem deleted_listed_when_asked_for:
  "status example_deleted = ''deleted'' \<and>
   fetch_reminders 7 (Some ''deleted'') 200 [example_deleted, example_done] = [example_deleted]"
  by code_simp

section \<open>The scheduler tick\<close>

lemma row_id_row_after [simp]: "row_id (row_after cfg now send r) = row_id r"
  by (simp add: row_after_def)

lemma row_after_not_pending: "status r \<noteq> ''pending'' \<Longrightarrow> row_after cfg now send r = r"
  by (simp add: row_after_def exhausted_def attempted_def)

lemma tick_row_step:
  assumes "status row = ''pending''"
    and "\<And>x. x \<in> set conn \<Longrightarrow> row_id x = row_id row \<Longrightarrow> x = row"
  shows "tick_row cfg now send row (conn, log) =
           (map (\<lambda>x. if row_id x = row_id row then row_after cfg now send x else x) conn,
            log @ attempts_of cfg now send [row])"
proof -
  let ?m = "map (\<lambda>x. if row_id x = row_id row then row_after cfg now send x else x) conn"
  have same: "?m = conn" if "row_after cfg now send row = row"
  proof (rule map_idI)
    fix x assume "x \<in> set conn"
    then show "(if row_id x = row_id row then row_after cfg now send x else x) = x"
      using assms(2) [of x] that by (cases "row_id x = row_id row") simp_all
  qed
  have upd: "sql_update (\<lambda>r. row_id r = row_id row) g conn = ?m"
    if "g row = row_after cfg now send row" for g
    unfolding sql_update_def
  proof (rule map_cong [OF refl])
    fix x assume "x \<in> set conn"
    then show "(if row_id x = row_id row then g x else x) =
        (if row_id x = row_id row then row_after cfg now send x else x)"
      using assms(2) [of x] that by (cases "row_id x = row_id row") simp_all
  qed
  consider (future) "now < due_utc row"
    | (closed) "\<not> now < due_utc row" "retry_count row \<ge> MAX_RETRIES cfg"
    | (cool) "\<not> now < due_utc row" "\<not> retry_count row \<ge> MAX_RETRIES cfg" "cooling cfg now row"
    | (sent) "\<not> now < due_utc row" "\<not> retry_count row \<ge> MAX_RETRIES cfg" "\<not> cooling cfg now row"
        "send (chat_id row) (row_id row) (task row)"
    | (failed) "\<not> now < due_utc row" "\<not> retry_count row \<ge> MAX_RETRIES cfg" "\<not> cooling cfg now row"
        "\<not> send (chat_id row) (row_id row) (task row)"
    by blast
  then show ?thesis
  proof cases
    case future
    then have r: "row_after cfg now send row = row" and a: "\<not> attempted cfg now row"
      by (simp_all add: row_after_def exhausted_def attempted_def)
    have "tick_row cfg now send row (conn, log) = (conn, log)"
      using future by (simp add: tick_row_def)
    then show ?thesis using same [OF r] a by (simp add: attempts_of_def)
  next
    case closed
    then have r: "(\<lambda>r. r\<lparr>status := ''done'', completed_utc := Some now\<rparr>) row =
        row_after cfg now send row" and a: "\<not> attempted cfg now row"
      using assms(1) by (simp_all add: row_after_def exhausted_def attempted_def)
    have "tick_row cfg now send row (conn, log) =
        (sql_update (\<lambda>r. row_id r = row_id row)
           (\<lambda>r. r\<lparr>status := ''done'', completed_utc := Some now\<rparr>) conn, log)"
      using closed by (simp add: tick_row_def)
    then show ?thesis
      using upd [of "\<lambda>r. r\<lparr>status := ''done'', completed_utc := Some now\<rparr>", OF r] a
      by (simp add: attempts_of_def)
  next
    case cool
    then have r: "row_after cfg now send row = row" and a: "\<not> attempted cfg now row"
      by (simp_all add: row_after_def exhausted_def attempted_def)
    have "tick_row cfg now send row (conn, log) = (conn, log)"
      using cool by (simp add: tick_row_def cooling_def)
    then show ?thesis using same [OF r] a by (simp add: attempts_of_def)
  next
    case sent
    then have r: "(\<lambda>r. r\<lparr>retry_count := retry_count r + 1, last_sent_utc := Some now\<rparr>) row =
        row_after cfg now send row" and a: "attempted cfg now row"
      using assms(1) by (simp_all add: row_after_def exhausted_def attempted_def)
    have "tick_row cfg now send row (conn, log) =
        (sql_update (\<lambda>r. row_id r = row_id row)
           (\<lambda>r. r\<lparr>retry_count := retry_count r + 1, last_sent_utc := Some now\<rparr>) conn,
         log @ [(row_id row, True)])"
      using sent by (simp add: tick_row_def cooling_def)
    then show ?thesis
      using upd [of "\<lambda>r. r\<lparr>retry_count := retry_count r + 1, last_sent_utc := Some now\<rparr>", OF r]
        a sent(4)
      by (simp add: attempts_of_def)
  next
    case failed
    then have r: "row_after cfg now send row = row" and a: "attempted cfg now row"
      using assms(1) by (simp_all add: row_after_def exhausted_def attempted_def)
    have "tick_row cfg now send row (conn, log) = (conn, log @ [(row_id row, False)])"
      using failed by (simp add: tick_row_def cooling_def)
    then show ?thesis using same [OF r] a failed(4) by (simp add: attempts_of_def)
  qed
qed

lemma map_row_after_ids:
  "map row_id (map (\<lambda>x. if P x then row_after cfg now send x else x) conn) = map row_id conn"
  by (induction conn) auto

lemma fold_tick_row:
  assumes "distinct (map row_id conn)" "set rs \<subseteq> set conn" "distinct (map row_id rs)"
    and "\<forall>r\<in>set rs. status r = ''pending''"
  shows "fold (tick_row cfg now send) rs (conn, log) =
           (map (\<lambda>x. if row_id x \<in> row_id ` set rs then row_after cfg now send x else x) conn,
            log @ attempts_of cfg now send rs)"
  using assms
proof (induction rs arbitrary: conn log)
  case Nil
  then show ?case by (simp add: attempts_of_def)
next
  case (Cons row rs)
  define conn1 where
    "conn1 = map (\<lambda>x. if row_id x = row_id row then row_after cfg now send x else x) conn"
  have rowin: "row \<in> set conn" using Cons.prems(2) by simp
  have uniq: "x = row" if "x \<in> set conn" "row_id x = row_id row" for x
    using Cons.prems(1) rowin that by (meson distinct_map inj_onD)
  have step: "tick_row cfg now send row (conn, log) =
      (conn1, log @ attempts_of cfg now send [row])"
    unfolding conn1_def using Cons.prems(4) uniq by (intro tick_row_step) simp_all
  have d1: "distinct (map row_id conn1)"
    unfolding conn1_def map_row_after_ids by (rule Cons.prems(1))
  have notin: "row_id row \<notin> row_id ` set rs" using Cons.prems(3) by simp
  have sub1: "set rs \<subseteq> set conn1"
  proof
    fix x assume x: "x \<in> set rs"
    then have xc: "x \<in> set conn" using Cons.prems(2) by auto
    have ne: "row_id x \<noteq> row_id row" using notin x by (metis imageI)
    have "(\<lambda>x. if row_id x = row_id row then row_after cfg now send x else x) x \<in> set conn1"
      unfolding conn1_def using xc by (simp only: set_map) (rule imageI)
    then show "x \<in> set conn1" using ne by simp
  qed
  have d2: "distinct (map row_id rs)" using Cons.prems(3) by simp
  have p: "\<forall>r\<in>set rs. status r = ''pending''" using Cons.prems(4) by simp
  have comp: "map (\<lambda>x. if row_id x \<in> row_id ` set rs then row_after cfg now send x else x) conn1 =
      map (\<lambda>x. if row_id x \<in> row_id ` set (row # rs) then row_after cfg now send x else x) conn"
    unfolding conn1_def map_map
  proof (rule map_cong [OF refl])
    fix x assume "x \<in> set conn"
    show "((\<lambda>x. if row_id x \<in> row_id ` set rs then row_after cfg now send x else x) \<circ>
           (\<lambda>x. if row_id x = row_id row then row_after cfg now send x else x)) x =
          (if row_id x \<in> row_id ` set (row # rs) then row_after cfg now send x else x)"
      using notin by (cases "row_id x = row_id row") simp_all
  qed
  have att: "(log @ attempts_of cfg now send [row]) @ attempts_of cfg now send rs =
      log @ attempts_of cfg now send (row # rs)"
    by (simp add: attempts_of_def)
  have "fold (tick_row cfg now send) (row # rs) (conn, log) =
      fold (tick_row cfg now send) rs (conn1, log @ attempts_of cfg now send [row])"
    by (simp add: step)
  also have "\<dots> = (map (\<lambda>x. if row_id x \<in> row_id ` set rs then row_after cfg now send x else x) conn1,
      (log @ attempts_of cfg now send [row]) @ attempts_of cfg now send rs)"
    using Cons.IH [OF d1 sub1 d2 p] .
  finally show ?case unfolding comp att .
qed

lemma tick_job_rows:
  assumes "wf_db d"
  shows "tick_job cfg now send d = (map (row_after cfg now send) d, attempts_of cfg now send d)"
proof -
  let ?rs = "filter (\<lambda>r. status r = ''pending'') d"
  have d: "distinct (map row_id d)" using assms by (simp add: wf_db_def)
  have "tick_job cfg now send d =
      (map (\<lambda>x. if row_id x \<in> row_id ` set ?rs then row_after cfg now send x else x) d,
       [] @ attempts_of cfg now send ?rs)"
    unfolding tick_job_def
    using d by (intro fold_tick_row) (auto simp: distinct_map_filter)
  moreover have "map (\<lambda>x. if row_id x \<in> row_id ` set ?rs then row_after cfg now send x else x) d =
      map (row_after cfg now send) d"
  proof (rule map_cong [OF refl])
    fix x assume x: "x \<in> set d"
    show "(if row_id x \<in> row_id ` set ?rs then row_after cfg now send x else x) =
        row_after cfg now send x"
    proof (cases "status x = ''pending''")
      case True
      with x show ?thesis by auto
    next
      case False
      then show ?thesis by (simp add: row_after_not_pending)
    qed
  qed
  moreover have "filter (attempted cfg now) ?rs = filter (attempted cfg now) d"
    by (induction d) (auto simp: attempted_def)
  then have "attempts_of cfg now send ?rs = attempts_of cfg now send d"
    unfolding attempts_of_def by (rule arg_cong)
  ultimately show ?thesis by simp
qed

lemma wf_db_tick_job: "wf_db d \<Longrightarrow> wf_db (fst (tick_job cfg now send d))"
  by (simp add: tick_job_rows) (simp add: wf_db_def comp_def)

lemma get_row_map:
  assumes "\<And>x. row_id (f x) = row_id x"
  shows "get_row (map f d) i = map_option f (get_row d i)"
  unfolding get_row_def using assms by (induction d) auto

lemma get_row_tick_job:
  "wf_db d \<Longrightarrow> get_row (fst (tick_job cfg now send d)) i =
     map_option (row_after cfg now send) (get_row d i)"
  by (simp add: tick_job_rows get_row_map)

lemma attempt_ids:
  "wf_db d \<Longrightarrow> (i, b) \<in> set (snd (tick_job cfg now send d)) \<Longrightarrow>
     \<exists>r. get_row d i = Some r \<and> attempted cfg now r \<and> b = send (chat_id r) i (task r)"
  by (auto simp: tick_job_rows attempts_of_def get_row_unique)

lemma not_pending_untouched:
  assumes "wf_db d" "get_row d i = Some x" "status x \<noteq> ''pending''"
  shows "get_row (fst (tick_job cfg now send d)) i = Some x"
    and "i \<notin> fst ` set (snd (tick_job cfg now send d))"
proof -
  show "get_row (fst (tick_job cfg now send d)) i = Some x"
    using assms by (simp add: get_row_tick_job row_after_not_pending)
  show "i \<notin> fst ` set (snd (tick_job cfg now send d))"
  proof
    assume "i \<in> fst ` set (snd (tick_job cfg now send d))"
    then obtain b where "(i, b) \<in> set (snd (tick_job cfg now send d))" by force
    from attempt_ids [OF assms(1) this] assms(2,3) show False
      by (auto simp: attempted_def)
  qed
qed

subsection \<open>A closed reminder under the other operations\<close>

lemma wf_db_sql_update:
  assumes "\<And>r. row_id (f r) = row_id r" "wf_db d"
  shows "wf_db (sql_update P f d)"
  using assms(2) ids_sql_update [of f P d, OF assms(1)] by (simp add: wf_db_def)

lemma next_id_above: "r \<in> set d \<Longrightarrow> row_id r < next_id d"
  unfolding next_id_def by (induction d) auto

lemma wf_db_insert:
  assumes "wf_db d"
  shows "wf_db (snd (insert_reminder now chat tsk due amount cat d))"
proof -
  have "next_id d \<notin> row_id ` set d" using next_id_above by fastforce
  then show ?thesis using assms by (simp add: insert_reminder_def wf_db_def Let_def)
qed

lemma find_append_Some: "find P xs = Some x \<Longrightarrow> find P (xs @ ys) = Some x"
  by (induction xs) (auto split: if_splits)

lemma get_row_insert:
  assumes "get_row d i = Some x"
  shows "get_row (snd (insert_reminder now chat tsk due amount cat d)) i = Some x"
  using assms by (simp add: insert_reminder_def get_row_def Let_def find_append_Some)

lemma mark_done_cases:
  "snd (mark_done now chat rid d) = d \<or>
   (\<exists>row\<in>set d. status row = ''pending'' \<and>
      snd (mark_done now chat rid d) =
        sql_update (\<lambda>r. chat_id r = chat \<and> row_id r = row_id row)
          (\<lambda>r. r\<lparr>status := ''done'', completed_utc := Some now\<rparr>) d)"
proof -
  let ?sel = "case rid of
      None \<Rightarrow> order_by_due (filter (\<lambda>r. chat_id r = chat \<and> status r = ''pending'') d)
    | Some i \<Rightarrow> filter (\<lambda>r. chat_id r = chat \<and> row_id r = i \<and> status r = ''pending'') d"
  have mem: "row \<in> set d \<and> status row = ''pending''" if "row \<in> set ?sel" for row
    using that by (cases rid) auto
  show ?thesis
  proof (cases ?sel)
    case Nil
    then show ?thesis by (simp add: mark_done_def)
  next
    case (Cons row rest)
    then have "row \<in> set ?sel" by simp
    from mem [OF this] Cons show ?thesis by (auto simp: mark_done_def)
  qed
qed

lemma delete_reminder_cases:
  "snd (delete_reminder chat rid d) = d \<or>
   snd (delete_reminder chat rid d) =
     sql_update (\<lambda>r. chat_id r = chat \<and> row_id r = rid) (\<lambda>r. r\<lparr>status := ''deleted''\<rparr>) d"
  by (auto simp: delete_reminder_def split: list.splits)

lemma update_reminder_time_cases:
  "snd (update_reminder_time chat rid due d) = d \<or>
   snd (update_reminder_time chat rid due d) =
     sql_update (\<lambda>r. chat_id r = chat \<and> row_id r = rid) (reopen due) d"
  by (auto simp: update_reminder_time_def split: list.splits)

text \<open>
  The invariant: the table is well formed and reminder \<open>i\<close> of chat \<open>c\<close> is in it with
  a status other than \<open>pending\<close>.
\<close>

lemma closed_kept_by_event:
  assumes "wf_db d" "get_row d i = Some x" "status x \<noteq> ''pending''" "chat_id x = c"
    and "\<forall>due. ev \<noteq> Reschedule c i due"
  shows "wf_db (fst (apply_event cfg ev d)) \<and>
         (\<exists>y. get_row (fst (apply_event cfg ev d)) i = Some y \<and> status y \<noteq> ''pending'' \<and>
              chat_id y = c) \<and>
         i \<notin> fst ` set (snd (apply_event cfg ev d))"
proof (cases ev)
  case (Tick now send)
  then show ?thesis
    using not_pending_untouched [OF assms(1-3), of cfg now send] wf_db_tick_job [OF assms(1)]
      assms(3,4) by simp
next
  case (Insert now chat tsk due amount cat)
  then show ?thesis
    using wf_db_insert [OF assms(1)] get_row_insert [OF assms(2)] assms(3,4) by simp
next
  case (Reschedule chat rid due)
  with assms(5) have ne: "\<not> (chat = c \<and> rid = i)" by auto
  have xi: "row_id x = i" using get_row_Some_mem [OF assms(2)] by simp
  from update_reminder_time_cases [of chat rid due d] show ?thesis
  proof
    assume "snd (update_reminder_time chat rid due d) = d"
    then show ?thesis using Reschedule assms(1-4) by simp
  next
    assume u: "snd (update_reminder_time chat rid due d) =
      sql_update (\<lambda>r. chat_id r = chat \<and> row_id r = rid) (reopen due) d"
    have "get_row (sql_update (\<lambda>r. chat_id r = chat \<and> row_id r = rid) (reopen due) d) i = Some x"
      using assms(2,4) xi ne by (auto simp: get_row_sql_update)
    then show ?thesis
      using Reschedule u assms(1,3,4) by (simp add: wf_db_sql_update)
  qed
next
  case (Mark_done now chat rid)
  have xi: "row_id x = i" and xd: "x \<in> set d" using get_row_Some_mem [OF assms(2)] by simp_all
  from mark_done_cases [of now chat rid d] show ?thesis
  proof
    assume "snd (mark_done now chat rid d) = d"
    then show ?thesis using Mark_done assms(1-4) by simp
  next
    assume "\<exists>row\<in>set d. status row = ''pending'' \<and>
      snd (mark_done now chat rid d) =
        sql_update (\<lambda>r. chat_id r = chat \<and> row_id r = row_id row)
          (\<lambda>r. r\<lparr>status := ''done'', completed_utc := Some now\<rparr>) d"
    then obtain row where row: "row \<in> set d" "status row = ''pending''"
      and u: "snd (mark_done now chat rid d) =
        sql_update (\<lambda>r. chat_id r = chat \<and> row_id r = row_id row)
          (\<lambda>r. r\<lparr>status := ''done'', completed_utc := Some now\<rparr>) d"
      by blast
    have "row_id row \<noteq> i"
    proof
      assume "row_id row = i"
      then have "get_row d i = Some row" using get_row_unique [OF assms(1) row(1)] by simp
      with assms(2,3) row(2) show False by simp
    qed
    then have "get_row (sql_update (\<lambda>r. chat_id r = chat \<and> row_id r = row_id row)
          (\<lambda>r. r\<lparr>status := ''done'', completed_utc := Some now\<rparr>) d) i = Some x"
      using assms(2) xi by (auto simp: get_row_sql_update)
    then show ?thesis
      using Mark_done u assms(1,3,4) by (simp add: wf_db_sql_update)
  qed
next
  case (Delete chat rid)
  from delete_reminder_cases [of chat rid d] show ?thesis
  proof
    assume "snd (delete_reminder chat rid d) = d"
    then show ?thesis using Delete assms(1-4) by simp
  next
    assume u: "snd (delete_reminder chat rid d) =
      sql_update (\<lambda>r. chat_id r = chat \<and> row_id r = rid) (\<lambda>r. r\<lparr>status := ''deleted''\<rparr>) d"
    have "get_row (sql_update (\<lambda>r. chat_id r = chat \<and> row_id r = rid)
        (\<lambda>r. r\<lparr>status := ''deleted''\<rparr>) d) i =
        Some (if chat_id x = chat \<and> row_id x = rid then x\<lparr>status := ''deleted''\<rparr> else x)"
      using assms(2) by (simp add: get_row_sql_update)
    then show ?thesis
      using Delete u assms(1,3,4) by (auto simp: wf_db_sql_update)
  qed
qed

lemma closed_kept_by_history:
  assumes "wf_db d" "get_row d i = Some x" "status x \<noteq> ''pending''" "chat_id x = c"
    and "\<forall>due. Reschedule c i due \<notin> set evs"
  shows "(\<exists>y. get_row (fst (run_events cfg evs d)) i = Some y \<and> status y \<noteq> ''pending'') \<and>
         i \<notin> fst ` set (snd (run_events cfg evs d))"
  using assms
proof (induction evs arbitrary: d x)
  case Nil
  then show ?case by simp
next
  case (Cons ev evs)
  obtain d1 log1 where a: "apply_event cfg ev d = (d1, log1)" by (cases "apply_event cfg ev d")
  obtain d2 log2 where r: "run_events cfg evs d1 = (d2, log2)" by (cases "run_events cfg evs d1")
  have ne: "\<forall>due. ev \<noteq> Reschedule c i due" using Cons.prems(5) by auto
  from closed_kept_by_event [OF Cons.prems(1-4) ne, of cfg] a
  obtain y where y: "wf_db d1" "get_row d1 i = Some y" "status y \<noteq> ''pending''" "chat_id y = c"
    and l1: "i \<notin> fst ` set log1"
    by auto
  have rest: "\<forall>due. Reschedule c i due \<notin> set evs" using Cons.prems(5) by auto
  from Cons.IH [OF y rest] r
  have "\<exists>z. get_row d2 i = Some z \<and> status z \<noteq> ''pending''" "i \<notin> fst ` set log2" by simp_all
  with l1 show ?case by (simp add: a r image_Un)
qed

lemma attempted_later:
  assumes "attempted cfg now r" "now \<le> now'"
  shows "attempted cfg now' r"
  using assms by (auto simp: attempted_def cooling_def split: option.splits)

text \<open>
  C5, as the code has it. On a tick, a pending reminder whose due instant has passed
  and whose \<open>retry_count\<close> has reached \<open>MAX_RETRIES\<close> becomes \<open>done\<close> (with the tick's
  time as completion time) and no delivery is attempted for it on that tick. After
  that, whatever is done to the table in whatever order - later ticks, new reminders,
  confirmations, deletions, reschedules and snoozes of other reminders - the reminder
  does not become pending again and no tick attempts a delivery for it, as long as
  \<open>update_reminder_time\<close> is not called for this reminder of this chat, which is what
  a reschedule and a snooze of it do.
\<close>

theorem exhausted_reminder_closed_silently:
  assumes "wf_db d" "r \<in> set d" "status r = ''pending''" "due_utc r \<le> now"
    and "retry_count r \<ge> MAX_RETRIES cfg"
    and "\<forall>due. Reschedule (chat_id r) (row_id r) due \<notin> set evs"
  shows "get_row (fst (tick_job cfg now send d)) (row_id r) =
           Some (r\<lparr>status := ''done'', completed_utc := Some now\<rparr>) \<and>
         row_id r \<notin> fst ` set (snd (tick_job cfg now send d)) \<and>
         (\<exists>y. get_row (fst (run_events cfg evs (fst (tick_job cfg now send d)))) (row_id r) =
                Some y \<and> status y \<noteq> ''pending'') \<and>
         row_id r \<notin> fst ` set (snd (run_events cfg evs (fst (tick_job cfg now send d))))"
proof -
  let ?r' = "r\<lparr>status := ''done'', completed_utc := Some now\<rparr>"
  have g: "get_row d (row_id r) = Some r" using assms(1,2) by (rule get_row_unique)
  have ex: "exhausted cfg now r" using assms(3-5) by (simp add: exhausted_def)
  then have ra: "row_after cfg now send r = ?r'" by (simp add: row_after_def)
  have 1: "get_row (fst (tick_job cfg now send d)) (row_id r) = Some ?r'"
    using assms(1) g ra by (simp add: get_row_tick_job)
  have 2: "row_id r \<notin> fst ` set (snd (tick_job cfg now send d))"
  proof
    assume "row_id r \<in> fst ` set (snd (tick_job cfg now send d))"
    then obtain b where "(row_id r, b) \<in> set (snd (tick_job cfg now send d))" by force
    from attempt_ids [OF assms(1) this] g assms(5) show False
      by (auto simp: attempted_def)
  qed
  have wf1: "wf_db (fst (tick_job cfg now send d))" using assms(1) by (rule wf_db_tick_job)
  have np: "status ?r' \<noteq> ''pending''" and ch: "chat_id ?r' = chat_id r" by simp_all
  from closed_kept_by_history [OF wf1 1 np ch assms(6), of cfg] 1 2 show ?thesis by simp
qed

theorem exhausted_reminder_closed_silently_witness:
  "wf_db [example_exhausted] \<and> status example_exhausted = ''pending'' \<and>
   due_utc example_exhausted \<le> 200000000 \<and>
   retry_count example_exhausted \<ge> MAX_RETRIES example_cfg \<and>
   get_row (fst (tick_job example_cfg 200000000 (\<lambda>c i t. True) [example_exhausted])) 1 =
     Some (example_exhausted\<lparr>status := ''done'', completed_utc := Some 200000000\<rparr>) \<and>
   1 \<notin> fst ` set (snd (tick_job example_cfg 200000000 (\<lambda>c i t. True) [example_exhausted])) \<and>
   snd (run_events example_cfg example_history
          (fst (tick_job example_cfg 200000000 (\<lambda>c i t. True) [example_exhausted]))) =
     [(2, True)] \<and>
   1 \<notin> fst ` set (snd (run_events example_cfg example_history
            (fst (tick_job example_cfg 200000000 (\<lambda>c i t. True) [example_exhausted]))))"
proof -
  have h: "wf_db [example_exhausted]" "example_exhausted \<in> set [example_exhausted]"
    "status example_exhausted = ''pending''" "due_utc example_exhausted \<le> 200000000"
    "retry_count example_exhausted \<ge> MAX_RETRIES example_cfg"
    by (simp_all add: wf_db_def example_exhausted_def example_cfg_def)
  have i: "row_id example_exhausted = 1" "chat_id example_exhausted = 7"
    by (simp_all add: example_exhausted_def)
  have n: "\<forall>due. Reschedule (chat_id example_exhausted) (row_id example_exhausted) due
      \<notin> set example_history"
    unfolding i by (simp add: example_history_def)
  have e: "snd (run_events example_cfg example_history
          (fst (tick_job example_cfg 200000000 (\<lambda>c i t. True) [example_exhausted]))) =
      [(2, True)]"
    by code_simp
  from exhausted_reminder_closed_silently [OF h n, of "\<lambda>c i t. True"] h e
  show ?thesis unfolding i by simp
qed

text \<open>
  The claim as stated ("or any later tick") fails: the snooze button of a notification
  already sent reopens the closed reminder, and the tick after the new due instant
  attempts a delivery for it.
\<close>

theorem closed_reminder_notified_after_snooze:
  "tick_job example_cfg 200000000 (\<lambda>c i t. True) [example_exhausted] =
     ([example_exhausted\<lparr>status := ''done'', completed_utc := Some 200000000\<rparr>], []) \<and>
   on_callback (example_env 300000000) 7 ''snooze1h:1'' example_idle
       [example_exhausted\<lparr>status := ''done'', completed_utc := Some 200000000\<rparr>] =
     Inr (Some (Reprogramado_1h 1 3900000000), example_idle,
          [example_exhausted\<lparr>status := ''pending'', completed_utc := Some 200000000,
             due_utc := 3900000000, retry_count := 0, last_sent_utc := None\<rparr>]) \<and>
   tick_job example_cfg 3900000000 (\<lambda>c i t. True)
       [example_exhausted\<lparr>status := ''pending'', completed_utc := Some 200000000,
          due_utc := 3900000000, retry_count := 0, last_sent_utc := None\<rparr>] =
     ([example_exhausted\<lparr>status := ''pending'', completed_utc := Some 200000000,
          due_utc := 3900000000, retry_count := 1, last_sent_utc := Some 3900000000\<rparr>],
      [(1, True)])"
  by code_simp

text \<open>
  C6. In a tick every pending reminder that is due, below \<open>MAX_RETRIES\<close> and out of its
  cooldown gets one delivery attempt, in table order, whatever the other attempts do:
  a failure neither ends the tick nor leaves it (the tick returns the table and the
  attempts). A reminder whose attempt fails keeps its row, \<open>retry_count\<close> and
  \<open>last_sent_utc\<close> included, and is again attempted on any later tick; one whose
  attempt succeeds gets \<open>retry_count + 1\<close> and \<open>last_sent_utc\<close> the tick's time; and a
  row whose \<open>retry_count\<close> or \<open>last_sent_utc\<close> differs after the tick had a successful
  attempt.
\<close>

theorem failed_delivery_leaves_retry_bookkeeping:
  assumes "wf_db d"
  shows "snd (tick_job cfg now send d) =
           map (\<lambda>r. (row_id r, send (chat_id r) (row_id r) (task r)))
               (filter (attempted cfg now) d) \<and>
         (\<forall>r\<in>set d. attempted cfg now r \<and> \<not> send (chat_id r) (row_id r) (task r) \<longrightarrow>
            get_row (fst (tick_job cfg now send d)) (row_id r) = Some r \<and>
            (\<forall>now'. now \<le> now' \<longrightarrow> attempted cfg now' r)) \<and>
         (\<forall>r\<in>set d. attempted cfg now r \<and> send (chat_id r) (row_id r) (task r) \<longrightarrow>
            get_row (fst (tick_job cfg now send d)) (row_id r) =
              Some (r\<lparr>retry_count := retry_count r + 1, last_sent_utc := Some now\<rparr>)) \<and>
         (\<forall>r\<in>set d. \<forall>r'. get_row (fst (tick_job cfg now send d)) (row_id r) = Some r' \<and>
            (retry_count r' \<noteq> retry_count r \<or> last_sent_utc r' \<noteq> last_sent_utc r) \<longrightarrow>
            (row_id r, True) \<in> set (snd (tick_job cfg now send d)))"
proof (intro conjI ballI allI impI)
  show "snd (tick_job cfg now send d) =
      map (\<lambda>r. (row_id r, send (chat_id r) (row_id r) (task r))) (filter (attempted cfg now) d)"
    using assms by (simp add: tick_job_rows attempts_of_def)
next
  fix r assume r: "r \<in> set d"
    and a: "attempted cfg now r \<and> \<not> send (chat_id r) (row_id r) (task r)"
  have g: "get_row d (row_id r) = Some r" using assms r by (rule get_row_unique)
  have "row_after cfg now send r = r"
    using a by (simp add: row_after_def exhausted_def attempted_def)
  then show "get_row (fst (tick_job cfg now send d)) (row_id r) = Some r"
    using assms g by (simp add: get_row_tick_job)
  fix now' :: int assume "now \<le> now'"
  with a show "attempted cfg now' r" using attempted_later by blast
next
  fix r assume r: "r \<in> set d"
    and a: "attempted cfg now r \<and> send (chat_id r) (row_id r) (task r)"
  have g: "get_row d (row_id r) = Some r" using assms r by (rule get_row_unique)
  have "row_after cfg now send r = r\<lparr>retry_count := retry_count r + 1, last_sent_utc := Some now\<rparr>"
    using a by (simp add: row_after_def exhausted_def attempted_def)
  then show "get_row (fst (tick_job cfg now send d)) (row_id r) =
      Some (r\<lparr>retry_count := retry_count r + 1, last_sent_utc := Some now\<rparr>)"
    using assms g by (simp add: get_row_tick_job)
next
  fix r r' assume r: "r \<in> set d"
    and c: "get_row (fst (tick_job cfg now send d)) (row_id r) = Some r' \<and>
      (retry_count r' \<noteq> retry_count r \<or> last_sent_utc r' \<noteq> last_sent_utc r)"
  have g: "get_row d (row_id r) = Some r" using assms r by (rule get_row_unique)
  then have r': "r' = row_after cfg now send r"
    using assms c by (simp add: get_row_tick_job)
  with c have "attempted cfg now r \<and> send (chat_id r) (row_id r) (task r)"
    by (auto simp: row_after_def split: if_splits)
  then have "(row_id r, True) \<in> set (attempts_of cfg now send d)"
    using r by (auto simp: attempts_of_def image_iff intro!: bexI [of _ r])
  then show "(row_id r, True) \<in> set (snd (tick_job cfg now send d))"
    using assms by (simp add: tick_job_rows)
qed

theorem failed_delivery_leaves_retry_bookkeeping_witness:
  "wf_db [example_due 1, example_due 2] \<and>
   attempted example_cfg 200000000 (example_due 1) \<and>
   \<not> fails_for 1 (chat_id (example_due 1)) (row_id (example_due 1)) (task (example_due 1)) \<and>
   tick_job example_cfg 200000000 (fails_for 1) [example_due 1, example_due 2] =
     ([example_due 1,
       (example_due 2)\<lparr>retry_count := 3, last_sent_utc := Some 200000000\<rparr>],
      [(1, False), (2, True)]) \<and>
   get_row (fst (tick_job example_cfg 200000000 (fails_for 1) [example_due 1, example_due 2])) 1 =
     Some (example_due 1)"
proof -
  have e: "wf_db [example_due 1, example_due 2] \<and>
      attempted example_cfg 200000000 (example_due 1) \<and>
      \<not> fails_for 1 (chat_id (example_due 1)) (row_id (example_due 1)) (task (example_due 1)) \<and>
      tick_job example_cfg 200000000 (fails_for 1) [example_due 1, example_due 2] =
        ([example_due 1,
          (example_due 2)\<lparr>retry_count := 3, last_sent_utc := Some 200000000\<rparr>],
         [(1, False), (2, True)])"
    by code_simp
  have i: "row_id (example_due 1) = 1" by (simp add: example_due_def)
  have m: "example_due 1 \<in> set [example_due 1, example_due 2]" by simp
  from e have wf: "wf_db [example_due 1, example_due 2]" by blast
  from failed_delivery_leaves_retry_bookkeeping [OF wf, of example_cfg 200000000 "fails_for 1"] e m
  have "get_row (fst (tick_job example_cfg 200000000 (fails_for 1) [example_due 1, example_due 2]))
          (row_id (example_due 1)) = Some (example_due 1)"
    by blast
  with e show ?thesis unfolding i by blast
qed

section \<open>Decimal text of an id\<close>















section \<open>Snooze\<close>




section \<open>The continuation steps of on_text\<close>

lemma on_text_late:
  assumes "\<not> early_step (strip message)"
  shows "on_text e chat message ctx d =
     (if is_awaiting_datetime_for_reschedule ctx then reschedule_step e chat (strip message) ctx d
      else if is_awaiting_datetime_for_new ctx then new_step e chat (strip message) ctx d
      else intent_steps e chat (strip message) ctx d)"
  using assms by (simp add: on_text_def early_step_def Let_def)

lemma reschedule_step_unfold:
  assumes "awaiting_datetime_for_reschedule ctx = Some rid"
  shows "reschedule_step e chat msg ctx d =
     (case parse_date_time_from_text (dateparse e) (DEFAULT_HOUR e) (now_local e) msg of
        None \<Rightarrow> Inr (No_entendi_fecha, ctx, d)
      | Some dt \<Rightarrow>
          (case update_reminder_time chat rid dt d of
             (None, d') \<Rightarrow> Inr (No_encontre, ctx\<lparr>awaiting_datetime_for_reschedule := None\<rparr>, d')
           | (Some due, d') \<Rightarrow>
               Inr (Reprogramado rid due, ctx\<lparr>awaiting_datetime_for_reschedule := None\<rparr>, d')))"
  using assms
  by (simp add: reschedule_step_def pop_awaiting_datetime_for_reschedule_def
      set_awaiting_datetime_for_reschedule_def split: option.splits)

lemma new_step_unfold:
  assumes "awaiting_datetime_for_new ctx = Some payload"
  shows "new_step e chat msg ctx d =
     (case parse_date_time_from_text (dateparse e) (DEFAULT_HOUR e) (now_local e) msg of
        None \<Rightarrow> Inr (No_entendi_fecha, ctx, d)
      | Some dt \<Rightarrow>
          (case insert_reminder (now_local e) chat (pl_task payload) dt
                  (pl_amount_cop payload) (pl_category payload) d of
             ((rid, due), d') \<Rightarrow>
               Inr (Guardado rid due (pl_task payload)
                      (if pl_amount_cop payload \<noteq> None \<and> pl_amount_cop payload \<noteq> Some 0
                       then pl_amount_cop payload else None),
                    ctx\<lparr>awaiting_datetime_for_new := None\<rparr>, d')))"
  using assms
  by (simp add: new_step_def pop_awaiting_datetime_for_new_def
      set_awaiting_datetime_for_new_def split: option.splits)

text \<open>
  C2, as the code has it. When the message is not a delete request with ids and not
  one of the fixed phrases, a chat that waits for a date gets the message handled as
  the continuation, whatever the confirmation words, the sum words and
  \<open>parse_create_intent\<close> would make of it: the reschedule payload first when it is
  present, else the new-reminder payload. The payload is popped, the message goes
  through \<open>parse_date_time_from_text\<close>, and the payload is back in place only when
  no date was found.
\<close>

theorem continuation_before_intents:
  assumes "\<not> early_step (strip message)"
  shows "(\<forall>rid. awaiting_datetime_for_reschedule ctx = Some rid \<longrightarrow>
            on_text e chat message ctx d =
              (case parse_date_time_from_text (dateparse e) (DEFAULT_HOUR e) (now_local e)
                      (strip message) of
                 None \<Rightarrow> Inr (No_entendi_fecha, ctx, d)
               | Some dt \<Rightarrow>
                   (case update_reminder_time chat rid dt d of
                      (None, d') \<Rightarrow>
                        Inr (No_encontre, ctx\<lparr>awaiting_datetime_for_reschedule := None\<rparr>, d')
                    | (Some due, d') \<Rightarrow>
                        Inr (Reprogramado rid due,
                             ctx\<lparr>awaiting_datetime_for_reschedule := None\<rparr>, d')))) \<and>
         (\<forall>payload. awaiting_datetime_for_reschedule ctx = None \<and>
            awaiting_datetime_for_new ctx = Some payload \<longrightarrow>
            on_text e chat message ctx d =
              (case parse_date_time_from_text (dateparse e) (DEFAULT_HOUR e) (now_local e)
                      (strip message) of
                 None \<Rightarrow> Inr (No_entendi_fecha, ctx, d)
               | Some dt \<Rightarrow>
                   (case insert_reminder (now_local e) chat (pl_task payload) dt
                           (pl_amount_cop payload) (pl_category payload) d of
                      ((rid, due), d') \<Rightarrow>
                        Inr (Guardado rid due (pl_task payload)
                               (if pl_amount_cop payload \<noteq> None \<and> pl_amount_cop payload \<noteq> Some 0
                                then pl_amount_cop payload else None),
                             ctx\<lparr>awaiting_datetime_for_new := None\<rparr>, d'))))"
proof (intro conjI allI impI)
  fix rid assume a: "awaiting_datetime_for_reschedule ctx = Some rid"
  then have "is_awaiting_datetime_for_reschedule ctx"
    by (simp add: is_awaiting_datetime_for_reschedule_def)
  then show "on_text e chat message ctx d =
      (case parse_date_time_from_text (dateparse e) (DEFAULT_HOUR e) (now_local e)
              (strip message) of
         None \<Rightarrow> Inr (No_entendi_fecha, ctx, d)
       | Some dt \<Rightarrow>
           (case update_reminder_time chat rid dt d of
              (None, d') \<Rightarrow>
                Inr (No_encontre, ctx\<lparr>awaiting_datetime_for_reschedule := None\<rparr>, d')
            | (Some due, d') \<Rightarrow>
                Inr (Reprogramado rid due,
                     ctx\<lparr>awaiting_datetime_for_reschedule := None\<rparr>, d')))"
    using on_text_late [OF assms] reschedule_step_unfold [OF a] by simp
next
  fix payload
  assume a: "awaiting_datetime_for_reschedule ctx = None \<and>
      awaiting_datetime_for_new ctx = Some payload"
  then have "\<not> is_awaiting_datetime_for_reschedule ctx" "is_awaiting_datetime_for_new ctx"
    by (simp_all add: is_awaiting_datetime_for_reschedule_def is_awaiting_datetime_for_new_def)
  then show "on_text e chat message ctx d =
      (case parse_date_time_from_text (dateparse e) (DEFAULT_HOUR e) (now_local e)
              (strip message) of
         None \<Rightarrow> Inr (No_entendi_fecha, ctx, d)
       | Some dt \<Rightarrow>
           (case insert_reminder (now_local e) chat (pl_task payload) dt
                   (pl_amount_cop payload) (pl_category payload) d of
              ((rid, due), d') \<Rightarrow>
                Inr (Guardado rid due (pl_task payload)
                       (if pl_amount_cop payload \<noteq> None \<and> pl_amount_cop payload \<noteq> Some 0
                        then pl_amount_cop payload else None),
                     ctx\<lparr>awaiting_datetime_for_new := None\<rparr>, d')))"
    using on_text_late [OF assms] new_step_unfold [of ctx payload] a by simp
qed

text \<open>
  An instance: the confirmation word "ya", which step 3 would take for the earliest
  pending reminder, is the answer to the reschedule question of a waiting chat.
\<close>

theorem continuation_before_intents_witness:
  "\<not> early_step (strip ''ya'') \<and> looks_like_confirm ''ya'' \<and>
   awaiting_datetime_for_reschedule example_awaiting_reschedule = Some 1 \<and>
   on_text (example_env 300000000) 7 ''ya'' example_awaiting_reschedule [example_due 1] =
     Inr (No_entendi_fecha, example_awaiting_reschedule, [example_due 1])"
proof -
  have e: "\<not> early_step (strip ''ya'') \<and> looks_like_confirm ''ya'' \<and>
      awaiting_datetime_for_reschedule example_awaiting_reschedule = Some 1 \<and>
      parse_date_time_from_text (dateparse (example_env 300000000))
        (DEFAULT_HOUR (example_env 300000000)) (now_local (example_env 300000000))
        (strip ''ya'') = None"
    by code_simp
  then have h: "\<not> early_step (strip ''ya'')" by blast
  from continuation_before_intents
         [OF h, of example_awaiting_reschedule "example_env 300000000" 7 "[example_due 1]"] e
  show ?thesis by simp
qed

text \<open>
  The claim as stated fails: a fixed phrase is handled as the command it is, the
  waiting chat keeps its payload and the date extractor is not consulted (the
  continuation step would have answered that it did not understand the date).
\<close>

theorem fixed_phrase_before_continuation:
  "on_text (example_env 300000000) 7 ''lista'' example_awaiting_new [example_due 1] =
     Inr (Lista Pendientes [example_due 1], example_awaiting_new, [example_due 1]) \<and>
   new_step (example_env 300000000) 7 ''lista'' example_awaiting_new [example_due 1] =
     Inr (No_entendi_fecha, example_awaiting_new, [example_due 1])"
  by code_simp

text \<open>
  C7, as the code has it. When the message is not a delete request with ids and not
  one of the fixed phrases, the chat waits for a date (of either kind) and no date is
  found in the message, the handler answers that it did not understand the date and
  leaves the chat state and the table exactly as they were.
\<close>

theorem unparsed_reply_keeps_continuation:
  assumes "\<not> early_step (strip message)"
    and "is_awaiting_datetime_for_reschedule ctx \<or> is_awaiting_datetime_for_new ctx"
    and "parse_date_time_from_text (dateparse e) (DEFAULT_HOUR e) (now_local e) (strip message) = None"
  shows "on_text e chat message ctx d = Inr (No_entendi_fecha, ctx, d)"
proof (cases "awaiting_datetime_for_reschedule ctx")
  case (Some rid)
  then have "is_awaiting_datetime_for_reschedule ctx"
    by (simp add: is_awaiting_datetime_for_reschedule_def)
  then show ?thesis
    using on_text_late [OF assms(1)] reschedule_step_unfold [OF Some] assms(3) by simp
next
  case None
  then have n: "\<not> is_awaiting_datetime_for_reschedule ctx"
    by (simp add: is_awaiting_datetime_for_reschedule_def)
  with assms(2) obtain payload where p: "awaiting_datetime_for_new ctx = Some payload"
    by (auto simp: is_awaiting_datetime_for_new_def)
  then have "is_awaiting_datetime_for_new ctx" by (simp add: is_awaiting_datetime_for_new_def)
  then show ?thesis
    using on_text_late [OF assms(1)] new_step_unfold [OF p] assms(3) n by simp
qed

theorem unparsed_reply_keeps_continuation_witness:
  "\<not> early_step (strip ''no se'') \<and> is_awaiting_datetime_for_new example_awaiting_new \<and>
   parse_date_time_from_text (dateparse (example_env 300000000))
     (DEFAULT_HOUR (example_env 300000000)) (now_local (example_env 300000000))
     (strip ''no se'') = None \<and>
   on_text (example_env 300000000) 7 ''no se'' example_awaiting_new [example_due 1] =
     Inr (No_entendi_fecha, example_awaiting_new, [example_due 1])"
proof -
  have e: "\<not> early_step (strip ''no se'') \<and> is_awaiting_datetime_for_new example_awaiting_new \<and>
      parse_date_time_from_text (dateparse (example_env 300000000))
        (DEFAULT_HOUR (example_env 300000000)) (now_local (example_env 300000000))
        (strip ''no se'') = None"
    by code_simp
  then have h: "\<not> early_step (strip ''no se'')"
    "is_awaiting_datetime_for_reschedule example_awaiting_new \<or>
     is_awaiting_datetime_for_new example_awaiting_new"
    "parse_date_time_from_text (dateparse (example_env 300000000))
        (DEFAULT_HOUR (example_env 300000000)) (now_local (example_env 300000000))
        (strip ''no se'') = None"
    by blast+
  from unparsed_reply_keeps_continuation [OF h, of 7 "[example_due 1]"] e
  show ?thesis by blast
qed

text \<open>
  The claim as stated fails: a delete request sent by a waiting chat finds no date,
  keeps the payload, but deletes the reminder it names and reports the deletion.
\<close>

theorem delete_request_mutates_while_waiting:
  "parse_date_time_from_text (dateparse (example_env 300000000))
     (DEFAULT_HOUR (example_env 300000000)) (now_local (example_env 300000000))
     ''borrar 1'' = None \<and>
   on_text (example_env 300000000) 7 ''borrar 1'' example_awaiting_reschedule [example_due 1] =
     Inr (Eliminados [1] [], example_awaiting_reschedule,
          [(example_due 1)\<lparr>status := ''deleted''\<rparr>])"
  by code_simp

section \<open>The amount\<close>

lemma amount_step_eligible:
  "eligible c \<Longrightarrow>
     amount_step best c =
       Some (case best of None \<Rightarrow> dec_value (filter py_isdecimal c)
             | Some b \<Rightarrow> max b (dec_value (filter py_isdecimal c)))"
  by (cases best) (auto simp: amount_step_def eligible_def Let_def)

lemma amount_step_not_eligible: "\<not> eligible c \<Longrightarrow> amount_step best c = best"
  by (auto simp: amount_step_def eligible_def Let_def)

lemma Max_max_Cons: "Max (set (max b v # vs)) = Max (set (b # v # (vs :: int list)))"
proof (cases "vs = []")
  case True
  then show ?thesis by simp
next
  case False
  then have "set vs \<noteq> {}" by simp
  then show ?thesis by (simp add: max.assoc)
qed

lemma foldl_amount_step_Some:
  "foldl amount_step (Some b) cs =
     Some (Max (set (b # map (\<lambda>c. dec_value (filter py_isdecimal c)) (filter eligible cs))))"
proof (induction cs arbitrary: b)
  case Nil
  then show ?case by simp
next
  case (Cons c cs)
  show ?case
  proof (cases "eligible c")
    case True
    let ?v = "dec_value (filter py_isdecimal c)"
    let ?vs = "map (\<lambda>c. dec_value (filter py_isdecimal c)) (filter eligible cs)"
    have "foldl amount_step (Some b) (c # cs) = Some (Max (set (max b ?v # ?vs)))"
      using True Cons.IH [of "max b ?v"] by (simp add: amount_step_eligible)
    also have "Max (set (max b ?v # ?vs)) = Max (set (b # ?v # ?vs))"
      by (rule Max_max_Cons)
    finally show ?thesis using True by simp
  next
    case False
    then show ?thesis using Cons.IH [of b] by (simp add: amount_step_not_eligible)
  qed
qed

lemma foldl_amount_step_None:
  "foldl amount_step None cs =
     (let vs = map (\<lambda>c. dec_value (filter py_isdecimal c)) (filter eligible cs)
      in if vs = [] then None else Some (Max (set vs)))"
proof (induction cs)
  case Nil
  then show ?case by simp
next
  case (Cons c cs)
  show ?case
  proof (cases "eligible c")
    case True
    then show ?thesis
      by (simp add: amount_step_eligible foldl_amount_step_Some Let_def)
  next
    case False
    then show ?thesis using Cons.IH by (simp add: amount_step_not_eligible)
  qed
qed

lemma amount_examples:
  "parse_amount_cop_strict (''pagar 1.000 pesos y debo 50000 m'' @ [CHR 0xE1] @ ''s'') = Some 50000"
  "parse_amount_cop_strict ''nos vemos a las 18:30'' = None"
  "parse_amount_cop_strict ''cita 2026-02-03'' = None"
  by code_simp+

text \<open>
  C3, as the code has it. \<open>parse_amount_cop_strict\<close> returns an amount only when the
  lowered text contains one of "pagar", "pago", "pesos", "cop", "$", "debo" and some
  candidate is eligible: no colon, at least four digits without the separators, and a
  value above zero. It then returns the largest value among the eligible candidates;
  otherwise it returns nothing. "pagar 1.000 pesos y debo 50000 mas" (with its accent)
  gives 50000;
  "nos vemos a las 18:30" and "cita 2026-02-03" give nothing.
\<close>

theorem amount_is_largest_eligible:
  "parse_amount_cop_strict text =
     (if money_context (lower text) \<and> eligible_values text \<noteq> []
      then Some (Max (set (eligible_values text))) else None) \<and>
   parse_amount_cop_strict (''pagar 1.000 pesos y debo 50000 m'' @ [CHR 0xE1] @ ''s'') = Some 50000 \<and>
   parse_amount_cop_strict ''nos vemos a las 18:30'' = None \<and>
   parse_amount_cop_strict ''cita 2026-02-03'' = None"
  using amount_examples
  by (simp add: parse_amount_cop_strict_def foldl_amount_step_None eligible_values_def Let_def)

theorem amount_is_largest_eligible_witness:
  "money_context (lower ''debo 12.500 y 3.000'') \<and>
   eligible_values ''debo 12.500 y 3.000'' = [12500, 3000] \<and>
   parse_amount_cop_strict ''debo 12.500 y 3.000'' = Some 12500"
proof -
  have e: "money_context (lower ''debo 12.500 y 3.000'') \<and>
      eligible_values ''debo 12.500 y 3.000'' = [12500, 3000]"
    by code_simp
  from amount_is_largest_eligible [of "''debo 12.500 y 3.000''"] e
  show ?thesis by simp
qed

text \<open>
  The claim as stated fails on a candidate of value zero: with a money word, no colon
  and four digits it remains after the two discards the claim names, yet the result is
  nothing, not 0.
\<close>

theorem zero_amount_is_discarded:
  "money_context (lower ''pagar 0000'') \<and>
   re_findall money_find_re ''pagar 0000'' = ['' 0000''] \<and>
   CHR '':'' \<notin> set '' 0000'' \<and>
   length (filter py_isdecimal '' 0000'') = 4 \<and>
   dec_value (filter py_isdecimal '' 0000'') = 0 \<and>
   parse_amount_cop_strict ''pagar 0000'' = None"
  by code_simp

section \<open>Quincena\<close>

lemma year_match:
  "y \<in> set (rmatch year_re (p, s)) \<Longrightarrow>
     \<exists>a b rest. s = CHR ''2'' # CHR ''0'' # a # b # rest \<and> py_isdecimal a \<and> py_isdecimal b \<and>
       snd y = rest"
  unfolding year_re_def re_lit_def re_chr_def re_digit_def
  by (auto split: list.splits if_splits)

lemma year_search_from:
  "re_search_from year_re p s = Some ys \<Longrightarrow>
     \<exists>a b. ys = [CHR ''2'', CHR ''0'', a, b] \<and> py_isdecimal a \<and> py_isdecimal b"
proof (induction s arbitrary: p)
  case Nil
  then have "rmatch year_re (p, []) \<noteq> []" by (auto split: list.splits)
  then obtain y where "y \<in> set (rmatch year_re (p, []))" by (cases "rmatch year_re (p, [])") auto
  from year_match [OF this] show ?case by simp
next
  case (Cons c cs)
  show ?case
  proof (cases "rmatch year_re (p, c # cs)")
    case Nil
    with Cons.prems have "re_search_from year_re (Some c) cs = Some ys" by simp
    then show ?thesis by (rule Cons.IH)
  next
    case (Cons y list)
    then have "y \<in> set (rmatch year_re (p, c # cs))" by simp
    from year_match [OF this] obtain a b rest
      where s: "c # cs = CHR ''2'' # CHR ''0'' # a # b # rest" "py_isdecimal a" "py_isdecimal b"
        "snd y = rest" by blast
    from Cons Cons.prems have "ys = take (length (c # cs) - length (snd y)) (c # cs)" by simp
    with s show ?thesis by simp
  qed
qed

lemma year_value:
  assumes "re_search year_re s = Some ys"
  shows "2000 \<le> dec_value ys \<and> dec_value ys \<le> 2099"
proof -
  from assms obtain a b where ys: "ys = [CHR ''2'', CHR ''0'', a, b]" "py_isdecimal a" "py_isdecimal b"
    unfolding re_search_def using year_search_from by blast
  have "dec_value ys = 2000 + 10 * (int (code_point a) - 48) + (int (code_point b) - 48)"
    by (simp add: ys dec_value_def code_point_def)
  moreover have "48 \<le> code_point a" "code_point a \<le> 57" "48 \<le> code_point b" "code_point b \<le> 57"
    using ys(2,3) by (simp_all add: py_isdecimal_def Let_def)
  ultimately show ?thesis by simp
qed

lemma month_number:
  assumes "find_month s = Some (name, m)"
  shows "1 \<le> m \<and> m \<le> 12 \<and> (name, m) \<in> set MONTHS_ES \<and> re_search (month_re name) s \<noteq> None"
proof -
  from assms have "(name, m) \<in> set MONTHS_ES \<and> re_search (month_re name) s \<noteq> None"
    unfolding find_month_def by (auto simp: find_Some_iff in_set_conv_nth)
  moreover from this have "1 \<le> m \<and> m \<le> 12" by (auto simp: MONTHS_ES_def)
  ultimately show ?thesis by simp
qed

lemma quincena_range_first:
  assumes "1 \<le> y" "y \<le> 9999" "1 \<le> m" "m \<le> 12"
  shows "quincena_range y m 1 =
           Inr (\<lparr>year = y, month = m, day = 1, hour = 0, minute = 0\<rparr>,
                \<lparr>year = y, month = m, day = 15, hour = 23, minute = 59\<rparr>)"
  using assms by (simp add: quincena_range_def mk_datetime_def mdays_def)

lemma quincena_range_second:
  assumes "1 \<le> y" "y \<le> 9999" "1 \<le> m" "m \<le> 12" "which \<noteq> 1"
  shows "quincena_range y m which =
           Inr (\<lparr>year = y, month = m, day = 16, hour = 0, minute = 0\<rparr>,
                \<lparr>year = y, month = m,
                 day = mdays m + (if m = 2 \<and> isleap y then 1 else 0),
                 hour = 23, minute = 59\<rparr>)"
  using assms by (simp add: quincena_range_def mk_datetime_def monthrange_last_def mdays_def)

lemma parse_quincena_explicit:
  assumes "\<not> sublist ''esta quincena'' (lower text)"
    and "find_month (lower text) = Some (name, m)"
    and "re_search year_re (lower text) = Some ys"
  shows "sublist ''primera quincena'' (lower text) \<Longrightarrow>
           parse_quincena_query td text =
             Inr (Some (\<lparr>year = dec_value ys, month = m, day = 1, hour = 0, minute = 0\<rparr>,
                        \<lparr>year = dec_value ys, month = m, day = 15, hour = 23, minute = 59\<rparr>,
                        ''primera quincena de '' @ name @ '' '' @ str_int (dec_value ys)))"
    and "\<not> sublist ''primera quincena'' (lower text) \<Longrightarrow> sublist ''segunda quincena'' (lower text) \<Longrightarrow>
           parse_quincena_query td text =
             Inr (Some (\<lparr>year = dec_value ys, month = m, day = 16, hour = 0, minute = 0\<rparr>,
                        \<lparr>year = dec_value ys, month = m,
                         day = mdays m + (if m = 2 \<and> isleap (dec_value ys) then 1 else 0),
                         hour = 23, minute = 59\<rparr>,
                        ''segunda quincena de '' @ name @ '' '' @ str_int (dec_value ys)))"
proof -
  have y: "1 \<le> dec_value ys" "dec_value ys \<le> 9999" using year_value [OF assms(3)] by simp_all
  have m: "1 \<le> m" "m \<le> 12" using month_number [OF assms(2)] by simp_all
  show "sublist ''primera quincena'' (lower text) \<Longrightarrow>
           parse_quincena_query td text =
             Inr (Some (\<lparr>year = dec_value ys, month = m, day = 1, hour = 0, minute = 0\<rparr>,
                        \<lparr>year = dec_value ys, month = m, day = 15, hour = 23, minute = 59\<rparr>,
                        ''primera quincena de '' @ name @ '' '' @ str_int (dec_value ys)))"
    using assms quincena_range_first [OF y m]
    by (simp add: parse_quincena_query_def Let_def)
  show "\<not> sublist ''primera quincena'' (lower text) \<Longrightarrow> sublist ''segunda quincena'' (lower text) \<Longrightarrow>
           parse_quincena_query td text =
             Inr (Some (\<lparr>year = dec_value ys, month = m, day = 16, hour = 0, minute = 0\<rparr>,
                        \<lparr>year = dec_value ys, month = m,
                         day = mdays m + (if m = 2 \<and> isleap (dec_value ys) then 1 else 0),
                         hour = 23, minute = 59\<rparr>,
                        ''segunda quincena de '' @ name @ '' '' @ str_int (dec_value ys)))"
    using assms quincena_range_second [OF y m, of 2]
    by (simp add: parse_quincena_query_def Let_def)
qed

lemma february_2026_facts:
  "\<not> sublist ''esta quincena'' (lower ''primera quincena de febrero 2026'')"
  "find_month (lower ''primera quincena de febrero 2026'') = Some (''febrero'', 2)"
  "re_search year_re (lower ''primera quincena de febrero 2026'') = Some ''2026''"
  "sublist ''primera quincena'' (lower ''primera quincena de febrero 2026'')"
  "dec_value ''2026'' = 2026" "str_int 2026 = ''2026''"
  by code_simp+

text \<open>
  C9, as the code has it. In a text without "esta quincena" in which a month name
  stands as a word and a year written 20dd stands as a word, "primera quincena" gives
  the window from the 1st at 00:00 to the 15th at 23:59 of that month and year, and
  "segunda quincena" (without "primera quincena") the window from the 16th at 00:00
  to the last day of the month at 23:59, in local calendar fields; the year found is
  between 2000 and 2099. "primera quincena de febrero 2026" gives
  2026-02-01 00:00 to 2026-02-15 23:59 whatever the current date.
\<close>

theorem quincena_window_of_month_and_year:
  assumes "\<not> sublist ''esta quincena'' (lower text)"
    and "find_month (lower text) = Some (name, m)"
    and "re_search year_re (lower text) = Some ys"
  shows "2000 \<le> dec_value ys \<and> dec_value ys \<le> 2099 \<and> (name, m) \<in> set MONTHS_ES \<and>
     (sublist ''primera quincena'' (lower text) \<longrightarrow>
        parse_quincena_query td text =
          Inr (Some (\<lparr>year = dec_value ys, month = m, day = 1, hour = 0, minute = 0\<rparr>,
                     \<lparr>year = dec_value ys, month = m, day = 15, hour = 23, minute = 59\<rparr>,
                     ''primera quincena de '' @ name @ '' '' @ str_int (dec_value ys)))) \<and>
     (\<not> sublist ''primera quincena'' (lower text) \<and> sublist ''segunda quincena'' (lower text) \<longrightarrow>
        parse_quincena_query td text =
          Inr (Some (\<lparr>year = dec_value ys, month = m, day = 16, hour = 0, minute = 0\<rparr>,
                     \<lparr>year = dec_value ys, month = m,
                      day = mdays m + (if m = 2 \<and> isleap (dec_value ys) then 1 else 0),
                      hour = 23, minute = 59\<rparr>,
                     ''segunda quincena de '' @ name @ '' '' @ str_int (dec_value ys)))) \<and>
     parse_quincena_query td ''primera quincena de febrero 2026'' =
       Inr (Some (\<lparr>year = 2026, month = 2, day = 1, hour = 0, minute = 0\<rparr>,
                  \<lparr>year = 2026, month = 2, day = 15, hour = 23, minute = 59\<rparr>,
                  ''primera quincena de febrero 2026''))"
proof -
  have ex: "parse_quincena_query td ''primera quincena de febrero 2026'' =
       Inr (Some (\<lparr>year = 2026, month = 2, day = 1, hour = 0, minute = 0\<rparr>,
                  \<lparr>year = 2026, month = 2, day = 15, hour = 23, minute = 59\<rparr>,
                  ''primera quincena de febrero 2026''))"
    using parse_quincena_explicit(1) [OF february_2026_facts(1-4), of td]
    by (simp add: february_2026_facts(5,6))
  show ?thesis
    using year_value [OF assms(3)] month_number [OF assms(2)]
      parse_quincena_explicit [OF assms, of td] ex
    by blast
qed

theorem quincena_window_of_month_and_year_witness:
  "\<not> sublist ''esta quincena'' (lower ''suma segunda quincena de febrero 2028'') \<and>
   find_month (lower ''suma segunda quincena de febrero 2028'') = Some (''febrero'', 2) \<and>
   re_search year_re (lower ''suma segunda quincena de febrero 2028'') = Some ''2028'' \<and>
   parse_quincena_query example_today ''suma segunda quincena de febrero 2028'' =
     Inr (Some (\<lparr>year = 2028, month = 2, day = 16, hour = 0, minute = 0\<rparr>,
                \<lparr>year = 2028, month = 2, day = 29, hour = 23, minute = 59\<rparr>,
                ''segunda quincena de febrero 2028''))"
proof -
  have e: "\<not> sublist ''esta quincena'' (lower ''suma segunda quincena de febrero 2028'') \<and>
      find_month (lower ''suma segunda quincena de febrero 2028'') = Some (''febrero'', 2) \<and>
      re_search year_re (lower ''suma segunda quincena de febrero 2028'') = Some ''2028'' \<and>
      \<not> sublist ''primera quincena'' (lower ''suma segunda quincena de febrero 2028'') \<and>
      sublist ''segunda quincena'' (lower ''suma segunda quincena de febrero 2028'') \<and>
      dec_value ''2028'' = 2028 \<and> str_int 2028 = ''2028'' \<and> isleap 2028 \<and> mdays 2 = 28"
    by code_simp
  then have h: "\<not> sublist ''esta quincena'' (lower ''suma segunda quincena de febrero 2028'')"
    "find_month (lower ''suma segunda quincena de febrero 2028'') = Some (''febrero'', 2)"
    "re_search year_re (lower ''suma segunda quincena de febrero 2028'') = Some ''2028''"
    by blast+
  from quincena_window_of_month_and_year [OF h, of example_today] e
  show ?thesis by simp
qed

text \<open>
  The claim as stated fails for a year that is not written 20dd: the year in the text
  is ignored and the window is the one of the current year.
\<close>

theorem year_outside_this_century_ignored:
  "year example_today = 2026 \<and>
   parse_quincena_query example_today ''primera quincena de febrero 1999'' =
     Inr (Some (\<lparr>year = 2026, month = 2, day = 1, hour = 0, minute = 0\<rparr>,
                \<lparr>year = 2026, month = 2, day = 15, hour = 23, minute = 59\<rparr>,
                ''primera quincena de febrero 2026''))"
  by code_simp

section \<open>The default hour\<close>

subsection \<open>Patterns that need a digit\<close>

lemma rmatch_suffix: "y \<in> set (rmatch r x) \<Longrightarrow> suffix (snd y) (snd x)"
proof (induction r x arbitrary: y rule: rmatch.induct)
  case (1 x)
  then show ?case by simp
next
  case (2 P x)
  show ?case
  proof (cases "snd x")
    case Nil
    with "2.prems" show ?thesis by simp
  next
    case (Cons c cs)
    with "2.prems" have "snd y = cs" by (simp split: if_splits)
    with Cons show ?thesis by (simp add: suffix_ConsI)
  qed
next
  case (3 a b x)
  from "3.prems" obtain z where z: "z \<in> set (rmatch a x)" "y \<in> set (rmatch b z)" by auto
  from "3.IH"(1) [OF z(1)] "3.IH"(2) [OF z(1) z(2)] show ?case
    using suffix_order.trans by blast
next
  case (4 a b x)
  from "4.prems" have "y \<in> set (rmatch a x) \<or> y \<in> set (rmatch b x)" by simp
  then show ?case using "4.IH" by blast
next
  case (5 a x)
  from "5.prems" have "y = x \<or> (\<exists>z\<in>set (rmatch a x). length (snd z) < length (snd x) \<and>
      y \<in> set (rmatch (Star a) z))"
    by (subst (asm) rmatch.simps) (auto split: if_splits)
  then show ?case
  proof
    assume "y = x" then show ?thesis by simp
  next
    assume "\<exists>z\<in>set (rmatch a x). length (snd z) < length (snd x) \<and> y \<in> set (rmatch (Star a) z)"
    then obtain z where z: "z \<in> set (rmatch a x)" "length (snd z) < length (snd x)"
      "y \<in> set (rmatch (Star a) z)" by blast
    from "5.IH"(1) [OF z(1)] "5.IH"(2) [OF z(1) z(2) z(3)] show ?thesis
      using suffix_order.trans by blast
  qed
next
  case (6 x)
  then show ?case by (auto split: if_splits)
next
  case (7 x)
  then show ?case by (auto split: if_splits)
qed

lemma needs_digit_Seq1:
  assumes "\<And>p s. \<forall>c\<in>set s. \<not> py_isdecimal c \<Longrightarrow> rmatch a (p, s) = []"
    and "\<forall>c\<in>set s. \<not> py_isdecimal c"
  shows "rmatch (Seq a b) (p, s) = []"
  using assms by simp

lemma needs_digit_Seq2:
  assumes "\<And>p s. \<forall>c\<in>set s. \<not> py_isdecimal c \<Longrightarrow> rmatch b (p, s) = []"
    and "\<forall>c\<in>set s. \<not> py_isdecimal c"
  shows "rmatch (Seq a b) (p, s) = []"
proof -
  have "rmatch b y = []" if "y \<in> set (rmatch a (p, s))" for y
  proof -
    from rmatch_suffix [OF that] have "set (snd y) \<subseteq> set s" by (auto dest: set_mono_suffix)
    with assms(2) have "\<forall>c\<in>set (snd y). \<not> py_isdecimal c" by blast
    from assms(1) [OF this, of "fst y"] show ?thesis by simp
  qed
  then show ?thesis by (simp add: concat_eq_Nil_conv)
qed

lemma needs_digit_digit:
  "\<forall>c\<in>set s. \<not> py_isdecimal c \<Longrightarrow> rmatch re_digit (p, s) = []"
  by (cases s) (simp_all add: re_digit_def)

lemma needs_digit_digit_Seq:
  "\<forall>c\<in>set s. \<not> py_isdecimal c \<Longrightarrow> rmatch (Seq re_digit b) (p, s) = []"
  by (rule needs_digit_Seq1 [OF needs_digit_digit])

lemma needs_digit_rep_1_2:
  "\<forall>c\<in>set s. \<not> py_isdecimal c \<Longrightarrow> rmatch (Seq (rep_1_2 re_digit) b) (p, s) = []"
  unfolding rep_1_2_def by (rule needs_digit_Seq1 [OF needs_digit_digit_Seq])

lemma needs_digit_rep_1_3:
  "\<forall>c\<in>set s. \<not> py_isdecimal c \<Longrightarrow> rmatch (Seq (rep_1_3 re_digit) b) (p, s) = []"
  unfolding rep_1_3_def by (rule needs_digit_Seq1 [OF needs_digit_digit_Seq])

lemma needs_digit_money_strip:
  assumes "\<forall>c\<in>set s. \<not> py_isdecimal c"
  shows "rmatch money_strip_re (p, s) = []"
proof -
  have 1: "rmatch grouped_re (p, s) = []"
    unfolding grouped_re_def
    by (rule needs_digit_Seq2 [OF needs_digit_Seq2 [OF needs_digit_rep_1_3] assms])
  have 2: "rmatch (Seq (re_opt (re_chr (CHR ''$''))) (Seq (Star re_space)
            (Seq re_digit (Seq re_digit (Seq re_digit (Seq re_digit (Star re_digit))))))) (p, s) = []"
    by (rule needs_digit_Seq2 [OF needs_digit_Seq2 [OF needs_digit_digit_Seq] assms])
  show ?thesis unfolding money_strip_re_def using 1 2 by simp
qed

lemma needs_digit_ampm:
  assumes "\<forall>c\<in>set s. \<not> py_isdecimal c"
  shows "rmatch ampm_re (p, s) = []"
  unfolding ampm_re_def by (rule needs_digit_Seq2 [OF needs_digit_rep_1_2 assms])

lemma needs_digit_bare:
  assumes "\<forall>c\<in>set s. \<not> py_isdecimal c"
  shows "rmatch bare_number_re (p, s) = []"
  unfolding bare_number_re_def by (rule needs_digit_Seq2 [OF needs_digit_rep_1_2 assms])

lemma search_no_match:
  assumes "\<And>p t. suffix t s \<Longrightarrow> rmatch r (p, t) = []"
  shows "re_search_from r p s = None"
  using assms
proof (induction s arbitrary: p)
  case Nil
  then show ?case by simp
next
  case (Cons c cs)
  have "rmatch r (p, c # cs) = []" using Cons.prems by simp
  moreover have "re_search_from r (Some c) cs = None"
    using Cons.prems by (intro Cons.IH) (simp add: suffix_Cons)
  ultimately show ?case by simp
qed

lemma scan_no_match:
  assumes "\<And>p t. suffix t s \<Longrightarrow> rmatch r (p, t) = []"
  shows "re_scan r adv p s = map (\<lambda>c. (False, [c])) s"
  using assms
proof (induction s arbitrary: p adv)
  case Nil
  then have "rmatch r (p, []) = []" by simp
  then show ?case by (subst re_scan.simps) simp
next
  case (Cons c cs)
  have "rmatch r (p, c # cs) = []" using Cons.prems by simp
  moreover have "re_scan r False (Some c) cs = map (\<lambda>c. (False, [c])) cs"
    using Cons.prems by (intro Cons.IH) (simp add: suffix_Cons)
  ultimately show ?case by (subst re_scan.simps) simp
qed

lemma digit_free_suffix:
  "\<forall>c\<in>set s. \<not> py_isdecimal c \<Longrightarrow> suffix t s \<Longrightarrow> \<forall>c\<in>set t. \<not> py_isdecimal c"
  by (auto dest: set_mono_suffix)

lemma strip_money_digit_free:
  assumes "\<forall>c\<in>set s. \<not> py_isdecimal c"
  shows "strip_money_candidates s = s"
proof -
  have "re_scan money_strip_re False None s = map (\<lambda>c. (False, [c])) s"
    using assms digit_free_suffix needs_digit_money_strip by (intro scan_no_match) blast
  then show ?thesis
    by (simp add: strip_money_candidates_def re_sub_def comp_def)
qed

subsection \<open>Lower case keeps digits and colons\<close>

lemma lower_char_code:
  "code_point (lower_char c) =
     (if (65 \<le> code_point c \<and> code_point c \<le> 90) \<or>
         (192 \<le> code_point c \<and> code_point c \<le> 222 \<and> code_point c \<noteq> 215)
      then code_point c + 32 else code_point c)"
  by (simp add: lower_char_def code_point_def Let_def)

lemma isdecimal_lower_char [simp]: "py_isdecimal (lower_char c) = py_isdecimal c"
  by (auto simp: py_isdecimal_def lower_char_code Let_def)

lemma colon_code: "(c = CHR '':'') = (code_point c = 58)"
proof
  assume "c = CHR '':''" then show "code_point c = 58" by (simp add: code_point_def)
next
  assume "code_point c = 58"
  then have "of_char c = (of_char (CHR '':'') :: nat)" by (simp add: code_point_def)
  then show "c = CHR '':''" by (simp only: of_char_eq_iff)
qed

lemma colon_lower_char [simp]: "(lower_char c = CHR '':'') = (c = CHR '':'')"
  by (auto simp: colon_code lower_char_code)

lemma colon_lower: "(CHR '':'' \<in> set (lower s)) = (CHR '':'' \<in> set s)"
proof -
  have "(CHR '':'' \<in> set (lower s)) = (\<exists>c\<in>set s. lower_char c = CHR '':'')"
    unfolding lower_def set_map image_iff by (rule bex_cong [OF refl]) (rule eq_commute)
  then show ?thesis by simp
qed

lemma digit_free_lower:
  "\<forall>c\<in>set s. \<not> py_isdecimal c \<Longrightarrow> \<forall>c\<in>set (lower s). \<not> py_isdecimal c"
  by (simp add: lower_def)

lemma has_time_digit_free:
  assumes "\<forall>c\<in>set s. \<not> py_isdecimal c"
  shows "has_time s = (CHR '':'' \<in> set s \<or> sublist ''a las'' (lower s))"
proof -
  have l: "\<forall>c\<in>set (lower s). \<not> py_isdecimal c" using assms by (rule digit_free_lower)
  have "re_search ampm_re (lower s) = None"
    unfolding re_search_def using l digit_free_suffix needs_digit_ampm
    by (intro search_no_match) blast
  moreover have "re_search bare_number_re (lower s) = None"
    unfolding re_search_def using l digit_free_suffix needs_digit_bare
    by (intro search_no_match) blast
  ultimately show ?thesis
    by (simp add: has_time_def text_has_time_hints_def Let_def colon_lower)
qed

subsection \<open>Where the default hour is appended\<close>

text \<open>
  For a text without digits nothing is stripped, neither number pattern can match,
  and the markers that remain are the colon and "a las": there the default hour is
  appended exactly when the text mentions a day or date word and has no marker.
\<close>

lemma default_hour_without_digits:
  assumes "\<forall>c\<in>set text. \<not> py_isdecimal c"
  shows "parse_date_time_from_text dp dh now text =
        dp (if mentions_day text \<and> CHR '':'' \<notin> set text \<and> \<not> sublist ''a las'' (lower text)
            then text @ '' '' @ dh else text) now"
  by (simp add: parse_date_time_from_text_def augmented_def Let_def
      strip_money_digit_free [OF assms] has_time_digit_free [OF assms])

lemma datetime_examples:
  "augmented ''09:00'' manana = manana @ '' 09:00''"
  "strip_money_candidates ''el 1 de febrero'' = ''el 1 de febrero''"
  "mentions_day ''el 1 de febrero''"
  "\<not> text_has_time_hints ''el 1 de febrero''"
  "re_search bare_number_re (lower ''el 1 de febrero'') = Some ''1''"
  "has_time ''el 1 de febrero''"
  "strip_money_candidates ''pagar 1.000 pesos a Daniela el 1 de febrero'' =
     ''pagar  pesos a Daniela el 1 de febrero''"
  "mentions_day ''pagar  pesos a Daniela el 1 de febrero''"
  "\<not> text_has_time_hints ''pagar  pesos a Daniela el 1 de febrero''"
  "re_search bare_number_re (lower ''pagar  pesos a Daniela el 1 de febrero'') = Some ''1''"
  "has_time ''pagar  pesos a Daniela el 1 de febrero''"
  by code_simp+

subsection \<open>The day number of a date\<close>

text \<open>
  C1: the code departs from the claim on the claim's own example. "el 1 de febrero"
  names a month and has no colon, no am/pm marker and no "a las", so the default hour
  should be appended. It is not: the second test of \<open>has_time\<close> (source line 317), meant
  for a clock hour, matches the day number 1, so \<open>has_time\<close> holds and the parser is
  handed the text with no hour, whatever the default hour and whatever the parser. The
  same happens to the example the bot prints in its help texts (source lines 574, 690
  and 816), "pagar 1.000 pesos a Daniela el 1 de febrero" once \<open>parse_create_intent\<close>
  has taken the leading verb away: its text, the money stripped, reaches the parser
  without the default hour. The word for tomorrow, which has no digit, does
  get it.
\<close>

theorem day_number_blocks_default_hour:
  "mentions_day ''el 1 de febrero'' \<and> \<not> text_has_time_hints ''el 1 de febrero'' \<and>
   re_search bare_number_re (lower ''el 1 de febrero'') = Some ''1'' \<and>
   has_time ''el 1 de febrero'' \<and>
   parse_date_time_from_text dp dh now ''el 1 de febrero'' = dp ''el 1 de febrero'' now \<and>
   mentions_day (strip_money_candidates ''pagar 1.000 pesos a Daniela el 1 de febrero'') \<and>
   \<not> text_has_time_hints
       (strip_money_candidates ''pagar 1.000 pesos a Daniela el 1 de febrero'') \<and>
   parse_date_time_from_text dp dh now ''pagar 1.000 pesos a Daniela el 1 de febrero'' =
     dp ''pagar  pesos a Daniela el 1 de febrero'' now \<and>
   parse_date_time_from_text dp ''09:00'' now manana = dp (manana @ '' 09:00'') now"
proof -
  have 1: "augmented dh ''el 1 de febrero'' = ''el 1 de febrero''"
    by (simp only: augmented_def Let_def datetime_examples(2,6)) simp
  have 2: "augmented dh ''pagar 1.000 pesos a Daniela el 1 de febrero'' =
      ''pagar  pesos a Daniela el 1 de febrero''"
    by (simp only: augmented_def Let_def datetime_examples(7,11)) simp
  show ?thesis
    by (simp only: parse_date_time_from_text_def 1 2 datetime_examples simp_thms)
qed
end
